theory Spec2Isabelle
  imports Complex_Main
begin

section \<open>Python and NumPy values\<close>

text \<open>
  The notebook \<^verbatim>\<open>Final_notebook.ipynb\<close> is embedded cell by cell. Exceptions are values:
  a computation returns \<open>Inl e\<close> when the Python code raises \<open>e\<close> and \<open>Inr v\<close> when it
  returns \<open>v\<close>. A float64 number is a real number, \<open>nan\<close> or an infinity. The
  arithmetic of float64 rounds, overflows and underflows: where the preprocessing takes
  norms and quotients, these operations are parameters, and nothing is assumed of them.
\<close>

datatype error =
    AssertionError
  | IndexError
  | TypeError
  | ValueError
  | DeviceError string string
  | OtherError string

datatype npfloat = Float real | NaN | PosInf | NegInf

definition and_then :: "error + 'a \<Rightarrow> ('a \<Rightarrow> error + 'b) \<Rightarrow> error + 'b" where
  "and_then m f = (case m of Inl e \<Rightarrow> Inl e | Inr x \<Rightarrow> f x)"

text \<open>\<^verbatim>\<open>a[i]\<close> on the first axis of an array: a negative index counts from the end, an index
  outside \<open>[-n, n)\<close> raises IndexError.\<close>

definition np_index :: "'a list \<Rightarrow> int \<Rightarrow> error + 'a" where
  "np_index a i =
     (if 0 \<le> i \<and> i < int (length a) then Inr (a ! nat i)
      else if - int (length a) \<le> i \<and> i < 0 then Inr (a ! nat (int (length a) + i))
      else Inl IndexError)"

text \<open>\<^verbatim>\<open>a[idx]\<close> with an integer sequence \<open>idx\<close>: one row per index.\<close>

fun np_take :: "'a list \<Rightarrow> int list \<Rightarrow> error + 'a list" where
  "np_take a [] = Inr []"
| "np_take a (i # idx) =
     (case np_index a i of
        Inl e \<Rightarrow> Inl e
      | Inr x \<Rightarrow> (case np_take a idx of Inl e \<Rightarrow> Inl e | Inr xs \<Rightarrow> Inr (x # xs)))"

text \<open>The parameter array is three-dimensional: a shape and an entry for every position.\<close>

record ndarray3 =
  shape0 :: nat
  shape1 :: nat
  shape2 :: nat
  item :: "nat \<Rightarrow> nat \<Rightarrow> nat \<Rightarrow> real"

text \<open>\<^verbatim>\<open>parameters[:,0,i]\<close> and \<^verbatim>\<open>parameters[:,1::,i]\<close>.\<close>

definition slice_first :: "ndarray3 \<Rightarrow> nat \<Rightarrow> error + real list" where
  "slice_first p i =
     (if 0 < shape1 p \<and> i < shape2 p then Inr (map (\<lambda>a. item p a 0 i) [0..<shape0 p])
      else Inl IndexError)"

definition slice_rest :: "ndarray3 \<Rightarrow> nat \<Rightarrow> error + real list list" where
  "slice_rest p i =
     (if i < shape2 p
      then Inr (map (\<lambda>a. map (\<lambda>b. item p a b i) [1..<shape1 p]) [0..<shape0 p])
      else Inl IndexError)"

section \<open>Circuits and devices\<close>

text \<open>
  A qnode queues operations on a tape and hands the tape to its device, which returns the
  expectation value of PauliZ on one wire or raises. The gates of the ansatz are those of
  \<^verbatim>\<open>utils.py\<close>, which is not part of the notebook: their type is a parameter.
\<close>

datatype 'g operation =
    QubitStateVector "npfloat list" "int list"
  | BasisState "nat list" "int list"
  | Gate 'g

type_synonym 'g device = "'g operation list \<Rightarrow> nat \<Rightarrow> error + real"

fun prep_name :: "'g operation \<Rightarrow> string option" where
  "prep_name (QubitStateVector v ws) = Some ''QubitStateVector''"
| "prep_name (BasisState b ws) = Some ''BasisState''"
| "prep_name (Gate g) = None"

text \<open>
  When the body of a qnode has run, PennyLane sorts what it has queued into state
  preparations and other operations, before the device is handed anything: a state
  preparation queued after another operation raises ValueError ("must occur prior to any
  quantum operations"). \<open>seen\<close> tells whether an operation that prepares no state has
  been met.
\<close>

fun process_queue :: "bool \<Rightarrow> 'g operation list \<Rightarrow> error option" where
  "process_queue seen [] = None"
| "process_queue seen (operation # rest) =
     (case prep_name operation of
        Some name \<Rightarrow> (if seen then Some ValueError else process_queue seen rest)
      | None \<Rightarrow> process_queue True rest)"

type_synonym layer = "real list \<times> real list list"

text \<open>
  The globals the cells below read: the three numbers of \<^verbatim>\<open>config.py\<close>, the two functions
  imported from \<^verbatim>\<open>utils.py\<close>, and the arrays the preprocessing cell leaves behind.
\<close>

record 'g notebook =
  num_words :: nat
  qbits_per_word :: nat
  num_layers :: nat
  encode_words :: "npfloat list list \<Rightarrow> int list \<Rightarrow> error + 'g operation list"
  circuit_final :: "layer list \<Rightarrow> nat list \<Rightarrow> nat \<Rightarrow> int \<Rightarrow> error + 'g operation list"
  embeddings_reduced_norm :: "npfloat list list"
  sentences_truncated :: "int list list"
  missing_word :: "int list"
  all_indices :: "int list list"
  word_indices :: "int list"

definition max_length :: "'g notebook \<Rightarrow> nat" where
  "max_length nb = num_words nb"

definition n_wires :: "'g notebook \<Rightarrow> nat" where
  "n_wires nb = qbits_per_word nb * (max_length nb + 1) + 1"

definition wires :: "'g notebook \<Rightarrow> nat list" where
  "wires nb = [0..<n_wires nb]"

section \<open>The qnode and the cost\<close>

text \<open>\<^verbatim>\<open>[(parameters[:,0,i], parameters[:,1::,i]) for i in range(num_layers)]\<close>\<close>

fun layer_params :: "ndarray3 \<Rightarrow> nat list \<Rightarrow> error + layer list" where
  "layer_params p [] = Inr []"
| "layer_params p (i # is) =
     (case slice_first p i of
        Inl e \<Rightarrow> Inl e
      | Inr a \<Rightarrow>
         (case slice_rest p i of
            Inl e \<Rightarrow> Inl e
          | Inr b \<Rightarrow>
             (case layer_params p is of Inl e \<Rightarrow> Inl e | Inr ls \<Rightarrow> Inr ((a, b) # ls))))"

definition compute_overlap_words ::
  "'g device \<Rightarrow> 'g notebook \<Rightarrow> ndarray3 \<Rightarrow> npfloat list list \<Rightarrow> int list \<Rightarrow> int \<Rightarrow> error + real" where
  "compute_overlap_words dev nb parameters embeddings indices target_word =
     and_then (encode_words nb embeddings indices) (\<lambda>prep.
     and_then (layer_params parameters [0..<num_layers nb]) (\<lambda>params.
     and_then (circuit_final nb params (wires nb) (num_layers nb) target_word) (\<lambda>ansatz.
       (case process_queue False (prep @ ansatz) of
          Some e \<Rightarrow> Inl e
        | None \<Rightarrow> dev (prep @ ansatz) (last (wires nb))))))"

text \<open>The loop of \<^verbatim>\<open>cost\<close>: \<open>i\<close> is the counter of \<^verbatim>\<open>enumerate\<close>, \<open>acc\<close> the running total.\<close>

fun cost_loop ::
  "'g device \<Rightarrow> 'g notebook \<Rightarrow> ndarray3 \<Rightarrow> int list list \<Rightarrow> int list \<Rightarrow> nat \<Rightarrow> real \<Rightarrow> error + real" where
  "cost_loop dev nb parameters [] missing_words i acc = Inr acc"
| "cost_loop dev nb parameters (sentence # rest) missing_words i acc =
     (case np_take (embeddings_reduced_norm nb) sentence of
        Inl e \<Rightarrow> Inl e
      | Inr embeddings \<Rightarrow>
         (case np_index (all_indices nb) (int i) of
            Inl e \<Rightarrow> Inl e
          | Inr indices \<Rightarrow>
             (case np_index missing_words (int i) of
                Inl e \<Rightarrow> Inl e
              | Inr m_w \<Rightarrow>
                 (case compute_overlap_words dev nb parameters embeddings indices m_w of
                    Inl e \<Rightarrow> Inl e
                  | Inr v \<Rightarrow> cost_loop dev nb parameters rest missing_words (Suc i) (acc + v)))))"

definition cost ::
  "'g device \<Rightarrow> 'g notebook \<Rightarrow> ndarray3 \<Rightarrow> int list list \<Rightarrow> int list \<Rightarrow> error + real" where
  "cost dev nb parameters sentences missing_words =
     cost_loop dev nb parameters sentences missing_words 0 0"

subsection \<open>The cost, term by term\<close>

text \<open>The term the loop adds for the sentence at place \<open>i\<close> of the list it is handed: the
  qnode on the embeddings of the sentence's word ids, the index row \<open>all_indices[i]\<close> and
  the missing-word position \<open>missing_words[i]\<close>.\<close>

definition overlap_term ::
  "'g device \<Rightarrow> 'g notebook \<Rightarrow> ndarray3 \<Rightarrow> int list \<Rightarrow> nat \<Rightarrow> int list \<Rightarrow> error + real" where
  "overlap_term dev nb parameters missing_words i sentence =
     and_then (np_take (embeddings_reduced_norm nb) sentence) (\<lambda>embeddings.
     and_then (np_index (all_indices nb) (int i)) (\<lambda>indices.
     and_then (np_index missing_words (int i)) (\<lambda>m_w.
       compute_overlap_words dev nb parameters embeddings indices m_w)))"

text \<open>Adding results from left to right, stopping at the first one that raised.\<close>

fun sum_in_order :: "real \<Rightarrow> (error + real) list \<Rightarrow> error + real" where
  "sum_in_order acc [] = Inr acc"
| "sum_in_order acc (Inl e # rs) = Inl e"
| "sum_in_order acc (Inr v # rs) = sum_in_order (acc + v) rs"

subsection \<open>What the cost of a batch is said to be\<close>

text \<open>
  The sentences of a batch are rows of the dataset. The term of the sentence of dataset
  index \<open>g\<close> with its own precomputed row: the qnode on the embeddings of its word ids, on
  \<open>all_indices[g]\<close> and on \<open>missing_word[g]\<close>; and the sum of these terms over a batch.
\<close>

definition own_row_term :: "'g device \<Rightarrow> 'g notebook \<Rightarrow> ndarray3 \<Rightarrow> int \<Rightarrow> error + real" where
  "own_row_term dev nb parameters g =
     and_then (np_index (sentences_truncated nb) g) (\<lambda>sentence.
     and_then (np_take (embeddings_reduced_norm nb) sentence) (\<lambda>embeddings.
     and_then (np_index (all_indices nb) g) (\<lambda>indices.
     and_then (np_index (missing_word nb) g) (\<lambda>m_w.
       compute_overlap_words dev nb parameters embeddings indices m_w))))"

definition cost_own_rows :: "'g device \<Rightarrow> 'g notebook \<Rightarrow> int list \<Rightarrow> ndarray3 \<Rightarrow> error + real" where
  "cost_own_rows dev nb batch parameters =
     sum_in_order 0 (map (own_row_term dev nb parameters) batch)"

subsection \<open>The second copy of the notebook\<close>

text \<open>The second copy differs in the device its qnode is bound to (\<^verbatim>\<open>dev = dev_remote\<close>);
  its qnode and its cost are transcribed again here, the device still a parameter.\<close>

definition compute_overlap_words_copy2 ::
  "'g device \<Rightarrow> 'g notebook \<Rightarrow> ndarray3 \<Rightarrow> npfloat list list \<Rightarrow> int list \<Rightarrow> int \<Rightarrow> error + real" where
  "compute_overlap_words_copy2 dev_remote nb parameters embeddings indices target_word =
     and_then (encode_words nb embeddings indices) (\<lambda>prep.
     and_then (layer_params parameters [0..<num_layers nb]) (\<lambda>params.
     and_then (circuit_final nb params (wires nb) (num_layers nb) target_word) (\<lambda>ansatz.
       (case process_queue False (prep @ ansatz) of
          Some e \<Rightarrow> Inl e
        | None \<Rightarrow> dev_remote (prep @ ansatz) (last (wires nb))))))"

fun cost_loop_copy2 ::
  "'g device \<Rightarrow> 'g notebook \<Rightarrow> ndarray3 \<Rightarrow> int list list \<Rightarrow> int list \<Rightarrow> nat \<Rightarrow> real \<Rightarrow> error + real" where
  "cost_loop_copy2 dev_remote nb parameters [] missing_words i acc = Inr acc"
| "cost_loop_copy2 dev_remote nb parameters (sentence # rest) missing_words i acc =
     (case np_take (embeddings_reduced_norm nb) sentence of
        Inl e \<Rightarrow> Inl e
      | Inr embeddings \<Rightarrow>
         (case np_index (all_indices nb) (int i) of
            Inl e \<Rightarrow> Inl e
          | Inr indices \<Rightarrow>
             (case np_index missing_words (int i) of
                Inl e \<Rightarrow> Inl e
              | Inr m_w \<Rightarrow>
                 (case compute_overlap_words_copy2 dev_remote nb parameters embeddings indices m_w of
                    Inl e \<Rightarrow> Inl e
                  | Inr v \<Rightarrow>
                     cost_loop_copy2 dev_remote nb parameters rest missing_words (Suc i) (acc + v)))))"

definition cost_copy2 ::
  "'g device \<Rightarrow> 'g notebook \<Rightarrow> ndarray3 \<Rightarrow> int list list \<Rightarrow> int list \<Rightarrow> error + real" where
  "cost_copy2 dev_remote nb parameters sentences missing_words =
     cost_loop_copy2 dev_remote nb parameters sentences missing_words 0 0"

section \<open>The query\<close>

text \<open>
  Subscripting a Python list. An integer selects one element. A one-dimensional NumPy
  array is not an index: \<^verbatim>\<open>list.__getitem__\<close> asks it for \<^verbatim>\<open>__index__\<close>, which only a
  zero-dimensional integer array provides, and the subscript raises TypeError.
\<close>

datatype index = IntIndex int | ArrayIndex "int list"

datatype pyval = PyInt int | PyList "int list"

fun py_list_getitem :: "int list \<Rightarrow> index \<Rightarrow> error + pyval" where
  "py_list_getitem xs (IntIndex i) =
     (case np_index xs i of Inl e \<Rightarrow> Inl e | Inr x \<Rightarrow> Inr (PyInt x))"
| "py_list_getitem xs (ArrayIndex a) = Inl TypeError"

text \<open>\<^verbatim>\<open>enumerate(x)\<close> iterates over \<open>x\<close>: an \<^verbatim>\<open>int\<close> is not iterable.\<close>

fun py_iter :: "pyval \<Rightarrow> error + int list" where
  "py_iter (PyInt n) = Inl TypeError"
| "py_iter (PyList xs) = Inr xs"

definition np_arange :: "nat \<Rightarrow> int list" where
  "np_arange n = map int [0..<n]"

text \<open>The loop over the candidates: \<open>probas\<close> is the list built so far.\<close>

fun probas_loop ::
  "'g device \<Rightarrow> 'g notebook \<Rightarrow> ndarray3 \<Rightarrow> npfloat list list \<Rightarrow> int list \<Rightarrow> int \<Rightarrow> int list \<Rightarrow>
     real list \<Rightarrow> error + real list" where
  "probas_loop dev nb parameters embeddings_input indices position [] probas = Inr probas"
| "probas_loop dev nb parameters embeddings_input indices position (index # rest) probas =
     (case np_index (embeddings_reduced_norm nb) index of
        Inl e \<Rightarrow> Inl e
      | Inr row \<Rightarrow>
         (case compute_overlap_words dev nb parameters (embeddings_input @ [row]) indices position of
            Inl e \<Rightarrow> Inl e
          | Inr v \<Rightarrow>
             probas_loop dev nb parameters embeddings_input indices position rest (probas @ [v])))"

text \<open>\<open>look_in\<close> is \<open>None\<close> or a one-dimensional integer array; \<open>sentence\<close> a list of word ids.\<close>

definition get_most_probable_word ::
  "'g device \<Rightarrow> 'g notebook \<Rightarrow> ndarray3 \<Rightarrow> int list \<Rightarrow> int \<Rightarrow> int list option \<Rightarrow> error + real list" where
  "get_most_probable_word dev nb parameters sentence position look_in =
     (if \<not> position < int (num_words nb) then Inl AssertionError
      else
        let look_in = (case look_in of None \<Rightarrow> np_arange (length (word_indices nb)) | Some a \<Rightarrow> a);
            indices = map int (filter (\<lambda>i. int i \<noteq> position) [0..<num_words nb]) @ [int (num_words nb)]
        in and_then (np_take (embeddings_reduced_norm nb) sentence) (\<lambda>embeddings_input.
           and_then (py_list_getitem (word_indices nb) (ArrayIndex look_in)) (\<lambda>selected.
           and_then (py_iter selected) (\<lambda>candidates.
             probas_loop dev nb parameters embeddings_input indices position candidates []))))"

fun probas_loop_copy2 ::
  "'g device \<Rightarrow> 'g notebook \<Rightarrow> ndarray3 \<Rightarrow> npfloat list list \<Rightarrow> int list \<Rightarrow> int \<Rightarrow> int list \<Rightarrow>
     real list \<Rightarrow> error + real list" where
  "probas_loop_copy2 dev_remote nb parameters embeddings_input indices position [] probas = Inr probas"
| "probas_loop_copy2 dev_remote nb parameters embeddings_input indices position (index # rest) probas =
     (case np_index (embeddings_reduced_norm nb) index of
        Inl e \<Rightarrow> Inl e
      | Inr row \<Rightarrow>
         (case compute_overlap_words_copy2 dev_remote nb parameters (embeddings_input @ [row])
                 indices position of
            Inl e \<Rightarrow> Inl e
          | Inr v \<Rightarrow>
             probas_loop_copy2 dev_remote nb parameters embeddings_input indices position rest
               (probas @ [v])))"

definition get_most_probable_word_copy2 ::
  "'g device \<Rightarrow> 'g notebook \<Rightarrow> ndarray3 \<Rightarrow> int list \<Rightarrow> int \<Rightarrow> int list option \<Rightarrow> error + real list" where
  "get_most_probable_word_copy2 dev_remote nb parameters sentence position look_in =
     (if \<not> position < int (num_words nb) then Inl AssertionError
      else
        let look_in = (case look_in of None \<Rightarrow> np_arange (length (word_indices nb)) | Some a \<Rightarrow> a);
            indices = map int (filter (\<lambda>i. int i \<noteq> position) [0..<num_words nb]) @ [int (num_words nb)]
        in and_then (np_take (embeddings_reduced_norm nb) sentence) (\<lambda>embeddings_input.
           and_then (py_list_getitem (word_indices nb) (ArrayIndex look_in)) (\<lambda>selected.
           and_then (py_iter selected) (\<lambda>candidates.
             probas_loop_copy2 dev_remote nb parameters embeddings_input indices position
               candidates []))))"

section \<open>The training cell\<close>

text \<open>
  The cell rebinds \<^verbatim>\<open>parameters\<close> after every step and prints one line per step; the
  optimizer keeps its moments between steps. When a statement raises, the cell stops and
  the globals keep the values they had: a cell returns the state it ended in and the
  exception, if any. The times printed are not modelled, only the number of lines.
\<close>

record 'o train_state =
  cur_parameters :: ndarray3
  adam_state :: 'o
  time_lines :: nat

text \<open>
  \<^verbatim>\<open>opt.step(objective_fn, parameters)\<close> first computes the gradient, whose forward pass
  calls the objective at the current parameters, then applies it. The differentiation and
  the arithmetic of Adam are PennyLane's and stay a parameter.
\<close>

type_synonym 'o optimizer =
  "(ndarray3 \<Rightarrow> error + real) \<Rightarrow> 'o \<Rightarrow> ndarray3 \<Rightarrow> error + ('o \<times> ndarray3)"

definition opt_step ::
  "'o optimizer \<Rightarrow> (ndarray3 \<Rightarrow> error + real) \<Rightarrow> 'o \<Rightarrow> ndarray3 \<Rightarrow> error + ('o \<times> ndarray3)" where
  "opt_step apply_grad objective_fn os p =
     (case objective_fn p of Inl e \<Rightarrow> Inl e | Inr forward \<Rightarrow> apply_grad objective_fn os p)"

definition batch_size :: nat where
  "batch_size = 10"

definition epochs :: nat where
  "epochs = 2"

definition N_batches :: "nat \<Rightarrow> nat" where
  "N_batches n = n div batch_size"

text \<open>\<^verbatim>\<open>np.arange(i*batch_size, (i+1)*batch_size).astype(int)\<close>\<close>

definition batch_of :: "nat \<Rightarrow> int list" where
  "batch_of i = map int [i * batch_size..<(i + 1) * batch_size]"

definition cost_batch ::
  "'g device \<Rightarrow> 'g notebook \<Rightarrow> int list \<Rightarrow> ndarray3 \<Rightarrow> error + real" where
  "cost_batch dev nb batch parameters =
     and_then (np_take (sentences_truncated nb) batch) (\<lambda>sentences.
     and_then (np_take (missing_word nb) batch) (\<lambda>missing_words.
       cost dev nb parameters sentences missing_words))"

text \<open>A \<^verbatim>\<open>for\<close> loop over a range: the body runs on each value in turn until one raises.\<close>

fun for_range :: "'a list \<Rightarrow> ('a \<Rightarrow> 's \<Rightarrow> 's \<times> error option) \<Rightarrow> 's \<Rightarrow> 's \<times> error option" where
  "for_range [] body s = (s, None)"
| "for_range (x # xs) body s =
     (case body x s of
        (s', Some e) \<Rightarrow> (s', Some e)
      | (s', None) \<Rightarrow> for_range xs body s')"

text \<open>The two nested loops, for any body that is handed the batch.\<close>

definition training_loop ::
  "(int list \<Rightarrow> 's \<Rightarrow> 's \<times> error option) \<Rightarrow> nat \<Rightarrow> 's \<Rightarrow> 's \<times> error option" where
  "training_loop body n s =
     for_range [0..<epochs] (\<lambda>epoch. for_range [0..<N_batches n] (\<lambda>i. body (batch_of i))) s"

text \<open>The body of the inner loop.\<close>

definition train_step ::
  "'g device \<Rightarrow> 'g notebook \<Rightarrow> 'o optimizer \<Rightarrow> int list \<Rightarrow> 'o train_state \<Rightarrow>
     'o train_state \<times> error option" where
  "train_step dev nb opt batch st =
     (case opt_step opt (cost_batch dev nb batch) (adam_state st) (cur_parameters st) of
        Inl e \<Rightarrow> (st, Some e)
      | Inr (os, p) \<Rightarrow>
          (st\<lparr>cur_parameters := p, adam_state := os, time_lines := Suc (time_lines st)\<rparr>, None))"

text \<open>\<^verbatim>\<open>np.random.rand(qbits_per_word, int(np.ceil(num_words/2))+1, num_layers)\<close>: the values
  drawn are an input.\<close>

definition initial_parameters :: "'g notebook \<Rightarrow> (nat \<Rightarrow> nat \<Rightarrow> nat \<Rightarrow> real) \<Rightarrow> ndarray3" where
  "initial_parameters nb drawn =
     \<lparr>shape0 = qbits_per_word nb, shape1 = (num_words nb + 1) div 2 + 1,
      shape2 = num_layers nb, item = drawn\<rparr>"

definition training_cell ::
  "'g device \<Rightarrow> 'g notebook \<Rightarrow> 'o optimizer \<Rightarrow> 'o \<Rightarrow> (nat \<Rightarrow> nat \<Rightarrow> nat \<Rightarrow> real) \<Rightarrow>
     'o train_state \<times> error option" where
  "training_cell dev nb opt os drawn =
     training_loop (train_step dev nb opt) (length (sentences_truncated nb))
       \<lparr>cur_parameters = initial_parameters nb drawn, adam_state = os, time_lines = 0\<rparr>"

subsection \<open>The batches the loop is said to use\<close>

text \<open>Epoch after epoch, the batches \<open>[i*10, (i+1)*10)\<close> for \<open>i\<close> below \<open>n // 10\<close>.\<close>

definition training_batches :: "nat \<Rightarrow> int list list" where
  "training_batches n = concat (replicate epochs (map batch_of [0..<n div batch_size]))"

text \<open>Running a body on a list of batches, one after the other.\<close>

fun run_batches ::
  "(int list \<Rightarrow> 's \<Rightarrow> 's \<times> error option) \<Rightarrow> int list list \<Rightarrow> 's \<Rightarrow> 's \<times> error option" where
  "run_batches body [] s = (s, None)"
| "run_batches body (b # bs) s =
     (case body b s of
        (s', Some e) \<Rightarrow> (s', Some e)
      | (s', None) \<Rightarrow> run_batches body bs s')"

section \<open>The local device and the encoding\<close>

text \<open>
  Modelled from the spec: the simulator behind \<^verbatim>\<open>default.qubit\<close> belongs to PennyLane and
  is not under src/. The traceback committed with the first copy ends in its \<^verbatim>\<open>apply\<close>,
  which goes through the operations of the tape in order, with the message that an
  operation "cannot be used after other Operations have already been applied": a state
  preparation is refused unless it is the first operation. What an accepted operation
  does to the state of the simulator (it may raise, a state vector that is not normalized
  does), and the expectation value read off at the end, stay parameters.
\<close>

record ('g, 's) simulator =
  initial_state :: 's
  apply_operation :: "'g operation \<Rightarrow> 's \<Rightarrow> error + 's"
  expval_PauliZ :: "'s \<Rightarrow> nat \<Rightarrow> error + real"

text \<open>The loop of \<^verbatim>\<open>apply\<close>: \<open>i\<close> is the counter of \<^verbatim>\<open>enumerate\<close>.\<close>

fun apply_loop :: "('g, 's) simulator \<Rightarrow> nat \<Rightarrow> 'g operation list \<Rightarrow> 's \<Rightarrow> error + 's" where
  "apply_loop sim i [] state = Inr state"
| "apply_loop sim i (operation # rest) state =
     (case (if 0 < i then prep_name operation else None) of
        Some name \<Rightarrow> Inl (DeviceError name ''default.qubit.autograd'')
      | None \<Rightarrow>
         (case apply_operation sim operation state of
            Inl e \<Rightarrow> Inl e
          | Inr state' \<Rightarrow> apply_loop sim (Suc i) rest state'))"

definition default_qubit :: "('g, 's) simulator \<Rightarrow> 'g device" where
  "default_qubit sim operations w =
     (case apply_loop sim 0 operations (initial_state sim) of
        Inl e \<Rightarrow> Inl e
      | Inr state \<Rightarrow> expval_PauliZ sim state w)"

text \<open>
  Modelled from the spec: \<^verbatim>\<open>encode_words\<close> is defined in utils.py, which is not under src/.
  The spec says that the notebook "encodes each sentence's words as quantum
  amplitude-encoded registers": one state preparation per word, on the register of
  \<open>qbits_per_word\<close> wires that the word's index selects.
\<close>

definition register :: "nat \<Rightarrow> int \<Rightarrow> int list" where
  "register q k = map (\<lambda>j. k * int q + int j) [0..<q]"

definition encode_words_spec :: "nat \<Rightarrow> npfloat list list \<Rightarrow> int list \<Rightarrow> error + 'g operation list" where
  "encode_words_spec q embeddings indices =
     Inr (map (\<lambda>(word, k). QubitStateVector word (register q k)) (zip embeddings indices))"

section \<open>The preprocessing cell\<close>

text \<open>
  The two operations of float64 arithmetic that the cell uses, \<^verbatim>\<open>np.linalg.norm\<close> of one
  row and the quotient of two numbers, as parameters.
\<close>

record float64 =
  np_linalg_norm :: "npfloat list \<Rightarrow> npfloat"
  np_true_divide :: "npfloat \<Rightarrow> npfloat \<Rightarrow> npfloat"

text \<open>\<^verbatim>\<open>x > 0\<close>: false for \<open>nan\<close>.\<close>

fun np_positive :: "npfloat \<Rightarrow> bool" where
  "np_positive (Float r) = (0 < r)"
| "np_positive PosInf = True"
| "np_positive NaN = False"
| "np_positive NegInf = False"

text \<open>\<^verbatim>\<open>a[mask]\<close> reads the rows where the mask holds; \<^verbatim>\<open>a[mask] = rows\<close> writes them, one
  new row per selected position, and raises ValueError when the shapes differ
  (\<^verbatim>\<open>fit_transform\<close> returns one row of \<open>n_dim\<close> entries per sample, so nothing is broadcast).\<close>

definition np_mask_select :: "bool list \<Rightarrow> 'a list \<Rightarrow> 'a list" where
  "np_mask_select msk a = map snd (filter fst (zip msk a))"

fun mask_put :: "bool list \<Rightarrow> 'a list \<Rightarrow> 'a list \<Rightarrow> 'a list" where
  "mask_put (m # msk) (x # a) rows =
     (if m then (case rows of [] \<Rightarrow> x # mask_put msk a [] | r # rs \<Rightarrow> r # mask_put msk a rs)
      else x # mask_put msk a rows)"
| "mask_put msk a rows = a"

definition np_mask_assign ::
  "'a list list \<Rightarrow> bool list \<Rightarrow> 'a list list \<Rightarrow> nat \<Rightarrow> error + 'a list list" where
  "np_mask_assign a msk rows width =
     (if length rows = length (filter id msk) \<and> list_all (\<lambda>r. length r = width) rows
      then Inr (mask_put msk a rows)
      else Inl ValueError)"

text \<open>\<^verbatim>\<open>PCA(n_dim).fit_transform\<close> is scikit-learn's and stays a parameter.\<close>

type_synonym pca = "nat \<Rightarrow> npfloat list list \<Rightarrow> error + npfloat list list"

text \<open>\<^verbatim>\<open>norms > 0\<close>, for \<^verbatim>\<open>norms = np.linalg.norm(embeddings, axis=1)\<close>.\<close>

definition positive_norms :: "float64 \<Rightarrow> npfloat list list \<Rightarrow> bool list" where
  "positive_norms fl embeddings = map (\<lambda>row. np_positive (np_linalg_norm fl row)) embeddings"

definition embeddings_reduced_of ::
  "float64 \<Rightarrow> pca \<Rightarrow> nat \<Rightarrow> npfloat list list \<Rightarrow> error + npfloat list list" where
  "embeddings_reduced_of fl fit_transform n_dim embeddings =
     and_then (fit_transform n_dim (np_mask_select (positive_norms fl embeddings) embeddings))
       (\<lambda>reduced.
          np_mask_assign (replicate (length embeddings) (replicate n_dim (Float 0)))
            (positive_norms fl embeddings) reduced n_dim)"

definition embeddings_reduced_norm_of ::
  "float64 \<Rightarrow> nat \<Rightarrow> npfloat list list \<Rightarrow> npfloat list list \<Rightarrow> error + npfloat list list" where
  "embeddings_reduced_norm_of fl n_dim embeddings embeddings_reduced =
     (let msk = positive_norms fl embeddings;
          norms_reduced = map (np_linalg_norm fl) embeddings_reduced;
          quotients = map (\<lambda>(row, n). map (\<lambda>x. np_true_divide fl x n) row)
                        (zip (np_mask_select msk embeddings_reduced) (np_mask_select msk norms_reduced))
      in np_mask_assign (map (\<lambda>row. replicate (length row) (Float 0)) embeddings_reduced)
           msk quotients n_dim)"

text \<open>
  \<^verbatim>\<open>np.random.randint(low, high, size=n)\<close>: \<open>n\<close> integers of \<open>[low, high)\<close>; when some are
  asked for and the range is empty, ValueError. The generator behind it is a parameter,
  a sequence of natural numbers; every sequence of integers of the range is drawn by
  some generator.
\<close>

definition randint :: "(nat \<Rightarrow> nat) \<Rightarrow> int \<Rightarrow> int \<Rightarrow> nat \<Rightarrow> error + int list" where
  "randint gen low high n =
     (if n = 0 then Inr []
      else if high \<le> low then Inl ValueError
      else Inr (map (\<lambda>k. low + int (gen k mod nat (high - low))) [0..<n]))"

text \<open>\<^verbatim>\<open>a[i, j] = v\<close> on a two-dimensional array.\<close>

definition np_setitem2 :: "'a list list \<Rightarrow> int \<Rightarrow> int \<Rightarrow> 'a \<Rightarrow> error + 'a list list" where
  "np_setitem2 a i j v =
     (let rows = int (length a);
          cols = (case a of [] \<Rightarrow> 0 | r # rest \<Rightarrow> int (length r))
      in if - rows \<le> i \<and> i < rows \<and> - cols \<le> j \<and> j < cols
         then let i' = nat (if i < 0 then rows + i else i);
                  j' = nat (if j < 0 then cols + j else j)
              in Inr (a[i' := (a ! i')[j' := v]])
         else Inl IndexError)"

text \<open>\<^verbatim>\<open>for i in range(len(sentences)): all_indices[i, missing_word[i]] = max_length\<close>. The
  array is written in place: when the loop raises, the rows written so far stay.\<close>

fun all_indices_loop ::
  "nat list \<Rightarrow> int list \<Rightarrow> nat \<Rightarrow> int list list \<Rightarrow> int list list \<times> error option" where
  "all_indices_loop [] mw ml a = (a, None)"
| "all_indices_loop (i # is) mw ml a =
     (case np_index mw (int i) of
        Inl e \<Rightarrow> (a, Some e)
      | Inr j \<Rightarrow>
         (case np_setitem2 a (int i) j (int ml) of
            Inl e \<Rightarrow> (a, Some e)
          | Inr a' \<Rightarrow> all_indices_loop is mw ml a'))"

text \<open>A Python dict keeps its keys in the order of their first insertion.\<close>

fun dict_set :: "('k \<times> 'v) list \<Rightarrow> 'k \<Rightarrow> 'v \<Rightarrow> ('k \<times> 'v) list" where
  "dict_set [] k v = [(k, v)]"
| "dict_set ((k', v') # d) k v = (if k' = k then (k, v) # d else (k', v') # dict_set d k v)"

text \<open>\<^verbatim>\<open>{value:key for key,value in vocab.items() if np.linalg.norm(embeddings_reduced_norm[int(value)])>0}\<close>\<close>

fun id_to_word_loop ::
  "float64 \<Rightarrow> (string \<times> int) list \<Rightarrow> npfloat list list \<Rightarrow> (int \<times> string) list \<Rightarrow>
     error + (int \<times> string) list" where
  "id_to_word_loop fl [] ern d = Inr d"
| "id_to_word_loop fl ((key, val) # items) ern d =
     (case np_index ern val of
        Inl e \<Rightarrow> Inl e
      | Inr row \<Rightarrow>
         (if np_positive (np_linalg_norm fl row) then id_to_word_loop fl items ern (dict_set d val key)
          else id_to_word_loop fl items ern d))"

text \<open>What the four \<^verbatim>\<open>load\<close> calls return or raise.\<close>

record files =
  embeddings_npy :: "error + npfloat list list"
  sentences_npy :: "error + int list list"
  labels_npy :: "error + int list"
  vocab_p :: "error + (string \<times> int) list"

text \<open>
  The cell, statement by statement. It binds \<open>missing_word\<close>, \<open>embeddings_reduced_norm\<close>,
  \<open>sentences_truncated\<close>, \<open>all_indices\<close> and \<open>word_indices\<close> in this order; when a statement
  raises, the cell stops and the globals bound so far stay bound: the cell returns the
  globals it ended with and the exception, if any.
\<close>

definition preprocessing_cell ::
  "float64 \<Rightarrow> files \<Rightarrow> (nat \<Rightarrow> nat) \<Rightarrow> pca \<Rightarrow> 'g notebook \<Rightarrow> 'g notebook \<times> error option" where
  "preprocessing_cell fl fs gen fit_transform nb =
     (let n_dim = 2 ^ qbits_per_word nb in
      case embeddings_npy fs of Inl e \<Rightarrow> (nb, Some e) | Inr embeddings \<Rightarrow>
     (case sentences_npy fs of Inl e \<Rightarrow> (nb, Some e) | Inr sentences \<Rightarrow>
     (case labels_npy fs of Inl e \<Rightarrow> (nb, Some e) | Inr labels \<Rightarrow>
     (case randint gen 0 (int (num_words nb)) (length sentences) of
        Inl e \<Rightarrow> (nb, Some e)
      | Inr mw \<Rightarrow>
     (let nb1 = nb\<lparr>missing_word := mw\<rparr> in
      case embeddings_reduced_of fl fit_transform n_dim embeddings of
        Inl e \<Rightarrow> (nb1, Some e)
      | Inr embeddings_reduced \<Rightarrow>
     (case embeddings_reduced_norm_of fl n_dim embeddings embeddings_reduced of
        Inl e \<Rightarrow> (nb1, Some e)
      | Inr ern \<Rightarrow>
     (let nb2 = nb1\<lparr>embeddings_reduced_norm := ern,
                    sentences_truncated := map (take (max_length nb)) sentences\<rparr> in
      case all_indices_loop [0..<length sentences] mw (max_length nb)
             (replicate (length sentences) (np_arange (max_length nb))) of
        (ai, Some e) \<Rightarrow> (nb2\<lparr>all_indices := ai\<rparr>, Some e)
      | (ai, None) \<Rightarrow>
     (let nb3 = nb2\<lparr>all_indices := ai\<rparr> in
      case vocab_p fs of Inl e \<Rightarrow> (nb3, Some e) | Inr vocab \<Rightarrow>
     (case id_to_word_loop fl vocab ern [] of
        Inl e \<Rightarrow> (nb3, Some e)
      | Inr id_to_word \<Rightarrow> (nb3\<lparr>word_indices := map fst id_to_word\<rparr>, None))))))))))"

text \<open>The globals after a run of the cell that has raised nothing.\<close>

definition preprocessing ::
  "float64 \<Rightarrow> files \<Rightarrow> (nat \<Rightarrow> nat) \<Rightarrow> pca \<Rightarrow> 'g notebook \<Rightarrow> error + 'g notebook" where
  "preprocessing fl fs gen fit_transform nb =
     (case preprocessing_cell fl fs gen fit_transform nb of
        (nb', None) \<Rightarrow> Inr nb'
      | (nb', Some e) \<Rightarrow> Inl e)"

section \<open>Small notebooks\<close>

text \<open>
  Concrete data on which every cell can be run: three vocabulary rows, one of them zero,
  ten sentences of three words truncated to two, one qubit per word and one layer. The
  entries of the rows are 0, 1 and 2: on them the norm and the quotient of float64 are
  exact, and this is the arithmetic handed to the cell.
\<close>

definition demo_norm :: "npfloat list \<Rightarrow> npfloat" where
  "demo_norm row =
     (if NaN \<in> set row then NaN
      else if PosInf \<in> set row \<or> NegInf \<in> set row then PosInf
      else Float (sqrt (sum_list (map (\<lambda>x. case x of Float r \<Rightarrow> r * r | _ \<Rightarrow> 0) row))))"

fun demo_divide :: "npfloat \<Rightarrow> npfloat \<Rightarrow> npfloat" where
  "demo_divide (Float x) (Float n) =
     (if n \<noteq> 0 then Float (x / n) else if x = 0 then NaN else if 0 < x then PosInf else NegInf)"
| "demo_divide x n = NaN"

definition demo_float :: float64 where
  "demo_float = \<lparr>np_linalg_norm = demo_norm, np_true_divide = demo_divide\<rparr>"

definition demo_files :: files where
  "demo_files =
     \<lparr>embeddings_npy = Inr [[Float 1, Float 0, Float 0], [Float 0, Float 0, Float 0],
                            [Float 0, Float 2, Float 0]],
      sentences_npy = Inr (replicate 10 [0, 2, 2]),
      labels_npy = Inr (replicate 10 0),
      vocab_p = Inr [(''january'', 0), (''pad'', 1), (''comet'', 2)]\<rparr>"

definition demo_pca :: pca where
  "demo_pca n rows = Inr (map (take n) rows)"

definition demo_gen :: "nat \<Rightarrow> nat" where
  "demo_gen k = k"

definition demo_config :: "nat notebook" where
  "demo_config =
     \<lparr>num_words = 2, qbits_per_word = 1, num_layers = 1,
      encode_words = encode_words_spec 1,
      circuit_final = (\<lambda>params ws layers target_word. Inr [Gate (nat target_word)]),
      embeddings_reduced_norm = [], sentences_truncated = [], missing_word = [],
      all_indices = [], word_indices = []\<rparr>"

definition demo_nb :: "nat notebook" where
  "demo_nb =
     demo_config
     \<lparr>embeddings_reduced_norm := [[Float 1, Float 0], [Float 0, Float 0], [Float 0, Float 1]],
      sentences_truncated := replicate 10 [0, 2],
      missing_word := [0, 1, 0, 1, 0, 1, 0, 1, 0, 1],
      all_indices := [[2, 1], [0, 2], [2, 1], [0, 2], [2, 1], [0, 2], [2, 1], [0, 2], [2, 1], [0, 2]],
      word_indices := [0, 2]\<rparr>"

text \<open>A device that accepts every tape and a simulation that counts its operations.\<close>

definition demo_simulate :: "nat operation list \<Rightarrow> nat \<Rightarrow> real" where
  "demo_simulate operations w = real (length operations)"

definition demo_dev :: "nat device" where
  "demo_dev operations w = Inr (demo_simulate operations w)"

text \<open>A local simulator whose state is the number of operations it has applied.\<close>

definition demo_simulator :: "(nat, nat) simulator" where
  "demo_simulator =
     \<lparr>initial_state = 0,
      apply_operation = (\<lambda>operation state. Inr (Suc state)),
      expval_PauliZ = (\<lambda>state w. Inr (real state))\<rparr>"

definition demo_drawn :: "nat \<Rightarrow> nat \<Rightarrow> nat \<Rightarrow> real" where
  "demo_drawn a b c = 1 / 2"

definition demo_opt :: "unit optimizer" where
  "demo_opt objective_fn os p = Inr (os, p)"

text \<open>A device that refuses the tapes holding the gate \<open>Gate 1\<close>, an optimizer that raises
  from its second step on, and runs of the cell without the embeddings, without the
  vocabulary, and with a decomposition that raises.\<close>

definition demo_dev_picky :: "nat device" where
  "demo_dev_picky operations w =
     (if Gate 1 \<in> set operations then Inl (OtherError ''device'')
      else Inr (demo_simulate operations w))"

definition demo_opt_once :: "nat optimizer" where
  "demo_opt_once objective_fn os p = (if os = 0 then Inr (Suc os, p) else Inl (OtherError ''adam''))"

definition demo_files_missing :: files where
  "demo_files_missing = demo_files\<lparr>embeddings_npy := Inl (OtherError ''FileNotFoundError'')\<rparr>"

definition demo_files_no_vocab :: files where
  "demo_files_no_vocab = demo_files\<lparr>vocab_p := Inl (OtherError ''FileNotFoundError'')\<rparr>"

definition demo_pca_raises :: pca where
  "demo_pca_raises n rows = Inl ValueError"

text \<open>
  Twenty-five sentences: two batches and five trailing sentences. The first batch masks
  position 0, the second position 1.
\<close>

definition demo_nb25 :: "nat notebook" where
  "demo_nb25 =
     demo_config
     \<lparr>embeddings_reduced_norm := [[Float 1, Float 0], [Float 0, Float 0], [Float 0, Float 1]],
      sentences_truncated := replicate 10 [0, 2] @ replicate 10 [2, 0] @ replicate 5 [1, 1],
      missing_word := replicate 10 0 @ replicate 10 1 @ replicate 5 0,
      all_indices := replicate 10 [2, 1] @ replicate 10 [0, 2] @ replicate 5 [2, 1],
      word_indices := [0, 2]\<rparr>"

text \<open>
  A device that looks at the register the ansatz treats as masked (the demo ansatz is the
  gate \<open>Gate target_word\<close>): it returns 1 when a word has been prepared on that register,
  0 when the register is empty.
\<close>

fun prepared_wires :: "nat operation list \<Rightarrow> int list" where
  "prepared_wires [] = []"
| "prepared_wires (QubitStateVector v ws # rest) = ws @ prepared_wires rest"
| "prepared_wires (operation # rest) = prepared_wires rest"

fun gate_targets :: "nat operation list \<Rightarrow> int list" where
  "gate_targets [] = []"
| "gate_targets (Gate g # rest) = int g # gate_targets rest"
| "gate_targets (operation # rest) = gate_targets rest"

definition demo_dev_mask :: "nat device" where
  "demo_dev_mask operations w =
     Inr (if \<exists>t\<in>set (gate_targets operations). t \<in> set (prepared_wires operations) then 1 else 0)"

text \<open>An optimizer that keeps the parameters and records the value of each forward pass.\<close>

definition demo_opt_log :: "real list optimizer" where
  "demo_opt_log objective_fn os p =
     (case objective_fn p of Inl e \<Rightarrow> Inl e | Inr forward \<Rightarrow> Inr (os @ [forward], p))"








section \<open>Properties of the cost\<close>


lemma and_then_Inl_iff:
  "and_then m f = Inl e \<longleftrightarrow> m = Inl e \<or> (\<exists>x. m = Inr x \<and> f x = Inl e)"
  by (cases m) (simp_all add: and_then_def)

lemma np_index_error: "np_index a i = Inl e \<Longrightarrow> e = IndexError"
  by (simp add: np_index_def split: if_splits)

lemma np_take_error: "np_take a idx = Inl e \<Longrightarrow> e = IndexError"
  by (induction idx) (auto split: sum.splits dest: np_index_error)

lemma cost_loop_sum_in_order:
  "cost_loop dev nb p ss mws i acc =
     sum_in_order acc (map (\<lambda>(j, s). overlap_term dev nb p mws j s) (zip [i..<i + length ss] ss))"
proof (induction ss arbitrary: i acc)
  case Nil
  show ?case by simp
next
  case (Cons s ss)
  have range: "[i..<i + length (s # ss)] = i # [Suc i..<Suc i + length ss]"
    using upt_rec [of i "i + length (s # ss)"] by simp
  show ?case
    unfolding range
    by (simp add: Cons.IH overlap_term_def and_then_def split: sum.splits)
qed

lemma zip_upt_nth:
  "map (\<lambda>(j, s). f j s) (zip [0..<length ss] ss) = map (\<lambda>j. f j (ss ! j)) [0..<length ss]"
  by (rule nth_equalityI) simp_all

lemma sum_in_order_values:
  "sum_in_order acc (map (\<lambda>j. Inr (v j)) js) = Inr (acc + sum_list (map v js))"
  by (induction js arbitrary: acc) (simp_all add: add.assoc)

lemma cost_sum_in_order:
  "cost dev nb p ss mws =
     sum_in_order 0 (map (\<lambda>i. overlap_term dev nb p mws i (ss ! i)) [0..<length ss])"
  using cost_loop_sum_in_order [of dev nb p ss mws 0 0]
  by (simp add: cost_def zip_upt_nth)

lemma cost_returns_sum:
  assumes "\<forall>i<length ss. overlap_term dev nb p mws i (ss ! i) = Inr (v i)"
  shows "cost dev nb p ss mws = Inr (sum_list (map v [0..<length ss]))"
proof -
  have "map (\<lambda>i. overlap_term dev nb p mws i (ss ! i)) [0..<length ss] =
        map (\<lambda>i. Inr (v i)) [0..<length ss]"
    using assms by simp
  then show ?thesis
    by (simp only: cost_sum_in_order sum_in_order_values) simp
qed

lemma last_wires: "last (wires nb) = n_wires nb - 1"
  by (simp add: wires_def n_wires_def)



lemma demo_nb_fields:
  "num_words demo_nb = 2" "qbits_per_word demo_nb = 1" "num_layers demo_nb = 1"
  "encode_words demo_nb = encode_words_spec 1"
  "circuit_final demo_nb = (\<lambda>params ws layers target_word. Inr [Gate (nat target_word)])"
  "embeddings_reduced_norm demo_nb = [[Float 1, Float 0], [Float 0, Float 0], [Float 0, Float 1]]"
  "sentences_truncated demo_nb = replicate 10 [0, 2]"
  "missing_word demo_nb = [0, 1, 0, 1, 0, 1, 0, 1, 0, 1]"
  "all_indices demo_nb = [[2, 1], [0, 2], [2, 1], [0, 2], [2, 1], [0, 2], [2, 1], [0, 2], [2, 1], [0, 2]]"
  "word_indices demo_nb = [0, 2]"
  by (simp_all add: demo_nb_def demo_config_def)

lemma demo_layer_params:
  "layer_params (initial_parameters demo_nb demo_drawn) [0..<num_layers demo_nb] = Inr [([1 / 2], [[1 / 2]])]"
  by (simp add: initial_parameters_def demo_nb_fields demo_drawn_def
      slice_first_def slice_rest_def upt_rec)

lemma demo_overlap:
  "compute_overlap_words demo_dev demo_nb (initial_parameters demo_nb demo_drawn) [a, b] [i, j] t = Inr 3"
  by (simp add: compute_overlap_words_def and_then_def demo_layer_params)
     (simp add: demo_nb_fields encode_words_spec_def demo_dev_def demo_simulate_def)

section \<open>Agreement of the two copies\<close>

lemma compute_overlap_words_copy2_eq:
  "compute_overlap_words_copy2 dev nb p e ix t = compute_overlap_words dev nb p e ix t"
  by (simp add: compute_overlap_words_copy2_def compute_overlap_words_def)

lemma cost_loop_copy2_eq:
  "cost_loop_copy2 dev nb p ss mws i acc = cost_loop dev nb p ss mws i acc"
  by (induction ss arbitrary: i acc)
     (simp_all add: compute_overlap_words_copy2_eq split: sum.splits)

lemma probas_loop_copy2_eq:
  "probas_loop_copy2 dev nb p ei ix pos cs probas = probas_loop dev nb p ei ix pos cs probas"
  by (induction cs arbitrary: probas)
     (simp_all add: compute_overlap_words_copy2_eq split: sum.splits)

text \<open>
  Claim C5. The two copies of the notebook define the same computation. They differ in
  the device that \<open>dev\<close> is bound to; with the same device in both, the qnode, the cost and
  the query function of the second copy return or raise exactly what those of the first
  copy do, for every input.
\<close>

theorem copies_agree:
  "compute_overlap_words_copy2 dev nb p e ix t = compute_overlap_words dev nb p e ix t
   \<and> cost_copy2 dev nb p ss mws = cost dev nb p ss mws
   \<and> get_most_probable_word_copy2 dev nb p s pos li = get_most_probable_word dev nb p s pos li"
  by (simp add: compute_overlap_words_copy2_eq cost_copy2_def cost_def cost_loop_copy2_eq
      get_most_probable_word_copy2_def get_most_probable_word_def probas_loop_copy2_eq)

section \<open>Properties of the query\<close>

lemma np_take_valid:
  "(\<forall>i\<in>set idx. - int (length a) \<le> i \<and> i < int (length a)) \<Longrightarrow> \<exists>rows. np_take a idx = Inr rows"
  by (induction idx) (auto simp: np_index_def split: sum.splits)

lemma np_take_invalid:
  "\<not> (\<forall>i\<in>set idx. - int (length a) \<le> i \<and> i < int (length a)) \<Longrightarrow> np_take a idx = Inl IndexError"
proof (induction idx)
  case Nil
  then show ?case by simp
next
  case (Cons i idx)
  show ?case
  proof (cases "np_index a i")
    case (Inl e)
    then show ?thesis using np_index_error [OF Inl] by simp
  next
    case (Inr x)
    then have "- int (length a) \<le> i \<and> i < int (length a)"
      by (auto simp: np_index_def split: if_splits)
    with Cons.prems have "\<not> (\<forall>i\<in>set idx. - int (length a) \<le> i \<and> i < int (length a))"
      by simp
    from Cons.IH [OF this] Inr show ?thesis by simp
  qed
qed

lemma get_most_probable_word_outcome:
  "get_most_probable_word dev nb p s pos li =
     (if \<not> pos < int (num_words nb) then Inl AssertionError
      else if \<forall>i\<in>set s. - int (length (embeddings_reduced_norm nb)) \<le> i
                  \<and> i < int (length (embeddings_reduced_norm nb))
           then Inl TypeError else Inl IndexError)"
proof (cases "\<forall>i\<in>set s. - int (length (embeddings_reduced_norm nb)) \<le> i
                  \<and> i < int (length (embeddings_reduced_norm nb))")
  case True
  from np_take_valid [OF this] obtain rows where "np_take (embeddings_reduced_norm nb) s = Inr rows" ..
  with True show ?thesis
    by (simp add: get_most_probable_word_def Let_def and_then_def)
next
  case False
  from np_take_invalid [OF this] False show ?thesis
    by (auto simp: get_most_probable_word_def Let_def and_then_def)
qed

text \<open>
  Claim C10. \<open>get_most_probable_word\<close> raises AssertionError if and only if its position
  argument is not smaller than \<open>num_words\<close>. The assertion is the first statement of the
  function: when it fails, the outcome is AssertionError whatever the device does, also
  for a device that raises on every tape it is handed, so no circuit has been run and no
  probability computed.
\<close>

theorem assertion_error_iff:
  "(get_most_probable_word dev nb p sentence position look_in = Inl AssertionError)
     = (\<not> position < int (num_words nb))
   \<and> (\<not> position < int (num_words nb) \<longrightarrow>
        get_most_probable_word (\<lambda>operations w. Inl (OtherError ''executed'')) nb p sentence
          position look_in = Inl AssertionError)"
  by (simp add: get_most_probable_word_outcome)

theorem assertion_error_iff_witness:
  "\<not> (2::int) < int (num_words demo_nb)
   \<and> get_most_probable_word demo_dev demo_nb (initial_parameters demo_nb demo_drawn) [0, 2] 2 None
       = Inl AssertionError
   \<and> get_most_probable_word (\<lambda>operations w. Inl (OtherError ''executed'')) demo_nb
        (initial_parameters demo_nb demo_drawn) [0, 2] 2 None = Inl AssertionError
   \<and> (1::int) < int (num_words demo_nb)
   \<and> get_most_probable_word demo_dev demo_nb (initial_parameters demo_nb demo_drawn) [0, 2] 1 None
       \<noteq> Inl AssertionError"
  using assertion_error_iff [of demo_dev demo_nb "initial_parameters demo_nb demo_drawn" "[0, 2]" 2 None]
    assertion_error_iff [of demo_dev demo_nb "initial_parameters demo_nb demo_drawn" "[0, 2]" 1 None]
  by (simp add: demo_nb_fields)

text \<open>
  Claim C4 says that every call of \<open>get_most_probable_word\<close> whose position passes the
  assertion raises TypeError. The lookup \<open>embeddings_reduced_norm[sentence]\<close> comes before
  the loop over the candidates: a sentence with a word id that is not a row of the array
  raises IndexError there.
\<close>

theorem get_most_probable_word_index_error:
  "(1::int) < int (num_words demo_nb)
   \<and> get_most_probable_word demo_dev demo_nb (initial_parameters demo_nb demo_drawn) [0, 5] 1 None
       = Inl IndexError
   \<and> get_most_probable_word demo_dev demo_nb (initial_parameters demo_nb demo_drawn) [0, 5] 1 None
       \<noteq> Inl TypeError"
  by (simp add: get_most_probable_word_def and_then_def np_index_def demo_nb_fields)

text \<open>
  Claim C4, amended. A call of \<open>get_most_probable_word\<close> whose position passes the
  assertion never returns its list of probabilities, with \<open>look_in\<close> left to \<open>None\<close> as
  with an integer array. When every word id of the sentence is a valid row index of
  \<open>embeddings_reduced_norm\<close> it raises TypeError, because \<open>word_indices\<close> is a Python list
  and the loop subscripts it with a NumPy array; otherwise it raises IndexError.
\<close>

theorem get_most_probable_word_never_returns:
  assumes "position < int (num_words nb)"
  shows "get_most_probable_word dev nb p sentence position look_in =
           (if \<forall>i\<in>set sentence. - int (length (embeddings_reduced_norm nb)) \<le> i
                  \<and> i < int (length (embeddings_reduced_norm nb))
            then Inl TypeError else Inl IndexError)"
  using assms by (simp add: get_most_probable_word_outcome)

theorem get_most_probable_word_never_returns_witness:
  "(1::int) < int (num_words demo_nb)
   \<and> get_most_probable_word demo_dev demo_nb (initial_parameters demo_nb demo_drawn) [0, 2] 1 None
       = Inl TypeError
   \<and> get_most_probable_word demo_dev demo_nb (initial_parameters demo_nb demo_drawn) [0, 2] 1
        (Some [1, 0, 1, 1, 0, 0, 1, 0, 1, 1]) = Inl TypeError
   \<and> get_most_probable_word demo_dev demo_nb (initial_parameters demo_nb demo_drawn) [0, 3] 1
        (Some [1, 0, 1, 1, 0, 0, 1, 0, 1, 1]) = Inl IndexError"
  using get_most_probable_word_never_returns [of 1 demo_nb demo_dev
      "initial_parameters demo_nb demo_drawn" "[0, 2]" None]
    get_most_probable_word_never_returns [of 1 demo_nb demo_dev
      "initial_parameters demo_nb demo_drawn" "[0, 2]" "Some [1, 0, 1, 1, 0, 0, 1, 0, 1, 1]"]
    get_most_probable_word_never_returns [of 1 demo_nb demo_dev
      "initial_parameters demo_nb demo_drawn" "[0, 3]" "Some [1, 0, 1, 1, 0, 0, 1, 0, 1, 1]"]
  by (simp add: demo_nb_fields)

text \<open>
  Claim C3 describes a query that computes one probability per candidate and prints the
  five largest. On the call the query cell makes, a sentence of six word ids, position 4
  of seven and ten candidates in \<open>look_in\<close>, the function raises TypeError before the
  first candidate: no probability is computed and nothing is printed.
\<close>

theorem query_cell_call_raises:
  "get_most_probable_word demo_dev (demo_nb\<lparr>num_words := 7\<rparr>)
     (initial_parameters (demo_nb\<lparr>num_words := 7\<rparr>) demo_drawn) [0, 2, 0, 2, 0, 2] 4
     (Some [1, 0, 1, 1, 0, 0, 1, 0, 1, 1]) = Inl TypeError"
  by (simp add: get_most_probable_word_def and_then_def np_index_def demo_nb_fields)

section \<open>The cost of a batch\<close>

lemma np_take_range:
  "j \<le> length a \<Longrightarrow> np_take a (map int [i..<j]) = Inr (map (\<lambda>k. a ! k) [i..<j])"
proof (induction "j - i" arbitrary: i)
  case 0
  then show ?case by simp
next
  case (Suc d)
  then have "i < j" and "d = j - Suc i" by simp_all
  with Suc.hyps(1) [of "Suc i"] Suc.prems show ?case
    by (simp add: upt_conv_Cons np_index_def)
qed

lemma demo_nb25_fields:
  "num_words demo_nb25 = 2" "qbits_per_word demo_nb25 = 1" "num_layers demo_nb25 = 1"
  "encode_words demo_nb25 = encode_words_spec 1"
  "circuit_final demo_nb25 = (\<lambda>params ws layers target_word. Inr [Gate (nat target_word)])"
  "embeddings_reduced_norm demo_nb25 = [[Float 1, Float 0], [Float 0, Float 0], [Float 0, Float 1]]"
  "sentences_truncated demo_nb25 = replicate 10 [0, 2] @ replicate 10 [2, 0] @ replicate 5 [1, 1]"
  "missing_word demo_nb25 = replicate 10 0 @ replicate 10 1 @ replicate 5 0"
  "all_indices demo_nb25 = replicate 10 [2, 1] @ replicate 10 [0, 2] @ replicate 5 [2, 1]"
  by (simp_all add: demo_nb25_def demo_config_def)

lemma demo_layer_params25:
  "layer_params (initial_parameters demo_nb25 demo_drawn) [0..<num_layers demo_nb25] = Inr [([1 / 2], [[1 / 2]])]"
  by (simp add: initial_parameters_def demo_nb25_fields demo_drawn_def
      slice_first_def slice_rest_def upt_rec)

lemma demo_overlap_mask:
  assumes "0 \<le> t"
  shows "compute_overlap_words demo_dev_mask demo_nb25 (initial_parameters demo_nb25 demo_drawn)
           [a, b] [i, j] t = Inr (if t = i \<or> t = j then 1 else 0)"
  using assms
  by (simp add: compute_overlap_words_def and_then_def demo_layer_params25)
     (auto simp: demo_nb25_fields encode_words_spec_def register_def demo_dev_mask_def)

lemma demo_rows25:
  assumes "i < 10"
  shows "sentences_truncated demo_nb25 ! i = [0, 2]" "sentences_truncated demo_nb25 ! (10 + i) = [2, 0]"
    "missing_word demo_nb25 ! i = 0" "missing_word demo_nb25 ! (10 + i) = 1"
    "all_indices demo_nb25 ! i = [2, 1]" "all_indices demo_nb25 ! (10 + i) = [0, 2]"
  using assms by (simp_all add: demo_nb25_fields nth_append)

lemma demo_embeddings25:
  "np_take (embeddings_reduced_norm demo_nb25) [0, 2] = Inr [[Float 1, Float 0], [Float 0, Float 1]]"
  "np_take (embeddings_reduced_norm demo_nb25) [2, 0] = Inr [[Float 0, Float 1], [Float 1, Float 0]]"
  by (simp_all add: demo_nb25_fields np_index_def)

lemma demo_lookups25:
  assumes "i < 10"
  shows "np_index (all_indices demo_nb25) (int i) = Inr [2, 1]"
    and "np_index (all_indices demo_nb25) (int (10 + i)) = Inr [0, 2]"
    and "np_index (sentences_truncated demo_nb25) (int (10 + i)) = Inr [2, 0]"
    and "np_index (missing_word demo_nb25) (int (10 + i)) = Inr 1"
    and "np_index (map (\<lambda>k. missing_word demo_nb25 ! k) [0..<10]) (int i) = Inr 0"
    and "np_index (map (\<lambda>k. missing_word demo_nb25 ! k) [10..<20]) (int i) = Inr 1"
proof -
  have len: "length (sentences_truncated demo_nb25) = 25" "length (missing_word demo_nb25) = 25"
    "length (all_indices demo_nb25) = 25"
    by (simp_all add: demo_nb25_fields)
  from assms show "np_index (all_indices demo_nb25) (int i) = Inr [2, 1]"
    and "np_index (all_indices demo_nb25) (int (10 + i)) = Inr [0, 2]"
    and "np_index (sentences_truncated demo_nb25) (int (10 + i)) = Inr [2, 0]"
    and "np_index (missing_word demo_nb25) (int (10 + i)) = Inr 1"
    by (simp_all add: np_index_def len demo_rows25 del: of_nat_add)
  from assms show "np_index (map (\<lambda>k. missing_word demo_nb25 ! k) [0..<10]) (int i) = Inr 0"
    and "np_index (map (\<lambda>k. missing_word demo_nb25 ! k) [10..<20]) (int i) = Inr 1"
    by (simp_all add: np_index_def demo_rows25 del: upt_rec_numeral)
qed

lemma demo_cost_batch25:
  "cost_batch demo_dev_mask demo_nb25 (map int [0..<10]) (initial_parameters demo_nb25 demo_drawn) = Inr 0"
  "cost_batch demo_dev_mask demo_nb25 (map int [10..<20]) (initial_parameters demo_nb25 demo_drawn) = Inr 10"
proof -
  let ?p = "initial_parameters demo_nb25 demo_drawn"
  let ?S = "sentences_truncated demo_nb25" and ?M = "missing_word demo_nb25"
  have len: "length ?S = 25" "length ?M = 25"
    by (simp_all add: demo_nb25_fields)
  have take: "np_take ?S (map int [i..<j]) = Inr (map (\<lambda>k. ?S ! k) [i..<j])"
    "np_take ?M (map int [i..<j]) = Inr (map (\<lambda>k. ?M ! k) [i..<j])" if "j \<le> 25" for i j
    using that by (simp_all add: np_take_range len)
  have "overlap_term demo_dev_mask demo_nb25 ?p (map (\<lambda>k. ?M ! k) [0..<10]) i
          (map (\<lambda>k. ?S ! k) [0..<10] ! i) = Inr 0" if "i < 10" for i
    using that
    by (simp add: overlap_term_def and_then_def demo_rows25 demo_embeddings25 demo_lookups25
        demo_overlap_mask del: np_take.simps upt_rec_numeral)
  then have "\<forall>i<length (map (\<lambda>k. ?S ! k) [0..<10]).
          overlap_term demo_dev_mask demo_nb25 ?p (map (\<lambda>k. ?M ! k) [0..<10]) i
            (map (\<lambda>k. ?S ! k) [0..<10] ! i) = Inr ((\<lambda>i. 0) i)"
    by simp
  from cost_returns_sum [OF this] take [of 10 0]
  show "cost_batch demo_dev_mask demo_nb25 (map int [0..<10]) ?p = Inr 0"
    by (simp add: cost_batch_def and_then_def)
  have "overlap_term demo_dev_mask demo_nb25 ?p (map (\<lambda>k. ?M ! k) [10..<20]) i
          (map (\<lambda>k. ?S ! k) [10..<20] ! i) = Inr 1" if "i < 10" for i
    using that
    by (simp add: overlap_term_def and_then_def demo_rows25 demo_embeddings25 demo_lookups25
        demo_overlap_mask del: np_take.simps upt_rec_numeral)
  then have "\<forall>i<length (map (\<lambda>k. ?S ! k) [10..<20]).
          overlap_term demo_dev_mask demo_nb25 ?p (map (\<lambda>k. ?M ! k) [10..<20]) i
            (map (\<lambda>k. ?S ! k) [10..<20] ! i) = Inr ((\<lambda>i. 1) i)"
    by simp
  from cost_returns_sum [OF this] take [of 20 10]
  show "cost_batch demo_dev_mask demo_nb25 (map int [10..<20]) ?p = Inr 10"
    by (simp add: cost_batch_def and_then_def sum_list_triv)
qed

lemma demo_own_rows25:
  "cost_own_rows demo_dev_mask demo_nb25 (map int [10..<20]) (initial_parameters demo_nb25 demo_drawn) = Inr 0"
proof -
  let ?p = "initial_parameters demo_nb25 demo_drawn"
  have own: "own_row_term demo_dev_mask demo_nb25 ?p (int (10 + i)) = Inr 0" if "i < 10" for i
    using that
    by (simp add: own_row_term_def and_then_def demo_lookups25 demo_embeddings25 demo_overlap_mask
        del: np_take.simps of_nat_add)
  have "own_row_term demo_dev_mask demo_nb25 ?p (int j) = Inr 0" if "j \<in> set [10..<20]" for j
  proof -
    from that have "10 \<le> j \<and> j < 20"
      by (simp del: upt_rec_numeral)
    then have "j = 10 + (j - 10)" and "j - 10 < 10"
      by arith+
    with own [of "j - 10"] show ?thesis by simp
  qed
  then have "map (own_row_term demo_dev_mask demo_nb25 ?p) (map int [10..<20]) =
             map (\<lambda>j. Inr ((\<lambda>j. 0) j)) [10..<20]"
    by (simp only: map_map o_def) (rule map_cong, simp_all)
  then show ?thesis
    by (simp only: cost_own_rows_def sum_in_order_values) simp
qed

text \<open>
  Claim C2 says that \<open>cost\<close> adds, for every sentence, the qnode on the embeddings of the
  sentence, on that sentence's precomputed index row and on that sentence's missing-word
  position. The training cell hands \<open>cost\<close> the sentences and the missing-word positions
  of a batch, and \<open>cost\<close> reads the index row at the place of the sentence in the batch:
  in the second batch of twenty-five sentences, sentence \<open>10 + i\<close> meets the row of
  sentence \<open>i\<close>. On a device that tells whether the masked register is empty, the cost of
  that batch is 10, and 0 with the sentences' own rows.
\<close>

theorem cost_reads_rows_of_first_batch:
  "batch_of 1 = map int [10..<20]
   \<and> cost_batch demo_dev_mask demo_nb25 (batch_of 1) (initial_parameters demo_nb25 demo_drawn) = Inr 10
   \<and> cost_own_rows demo_dev_mask demo_nb25 (batch_of 1) (initial_parameters demo_nb25 demo_drawn) = Inr 0"
proof -
  have "batch_of 1 = map int [10..<20]"
    by (simp add: batch_of_def batch_size_def)
  then show ?thesis
    by (simp only: demo_cost_batch25 demo_own_rows25 simp_thms)
qed

section \<open>The schedule of the training cell\<close>

lemma for_range_run_batches:
  "for_range xs (\<lambda>i. body (f i)) s = run_batches body (map f xs) s"
  by (induction xs arbitrary: s) (simp_all split: prod.splits option.splits)

lemma run_batches_append:
  "run_batches body (bs @ cs) s =
     (case run_batches body bs s of
        (s', Some e) \<Rightarrow> (s', Some e)
      | (s', None) \<Rightarrow> run_batches body cs s')"
  by (induction bs arbitrary: s) (simp_all split: prod.splits option.splits)

lemma for_range_nested:
  "for_range es (\<lambda>epoch. for_range xs (\<lambda>i. body (f i))) s =
     run_batches body (concat (replicate (length es) (map f xs))) s"
proof (induction es arbitrary: s)
  case Nil
  show ?case by simp
next
  case (Cons epoch es)
  have inner: "for_range xs (\<lambda>i. body (f i)) s = run_batches body (map f xs) s"
    by (rule for_range_run_batches)
  show ?case
    by (simp add: inner run_batches_append Cons.IH split: prod.splits option.splits)
qed

lemma training_loop_run_batches:
  "training_loop body n s = run_batches body (training_batches n) s"
  using for_range_nested [of "[0..<epochs]" "[0..<n div batch_size]" body batch_of s]
  by (simp add: training_loop_def training_batches_def N_batches_def)

lemma run_batches_snoc:
  "run_batches body (bs @ [b]) s =
     (case run_batches body bs s of
        (s', Some e) \<Rightarrow> (s', Some e)
      | (s', None) \<Rightarrow> body b s')"
  by (simp add: run_batches_append split: prod.splits option.splits)

lemma run_batches_all_return:
  assumes "\<forall>k<length bs. snd (body (bs ! k) (foldl (\<lambda>s b. fst (body b s)) s (take k bs))) = None"
  shows "run_batches body bs s = (foldl (\<lambda>s b. fst (body b s)) s bs, None)"
  using assms
proof (induction bs rule: rev_induct)
  case Nil
  show ?case by simp
next
  case (snoc b bs)
  have "\<forall>k<length bs. snd (body (bs ! k) (foldl (\<lambda>s b. fst (body b s)) s (take k bs))) = None"
  proof (intro allI impI)
    fix k assume k: "k < length bs"
    with snoc.prems have "snd (body ((bs @ [b]) ! k) (foldl (\<lambda>s b. fst (body b s)) s (take k (bs @ [b])))) = None"
      by simp
    with k show "snd (body (bs ! k) (foldl (\<lambda>s b. fst (body b s)) s (take k bs))) = None"
      by (simp add: nth_append)
  qed
  from snoc.IH [OF this]
  have run: "run_batches body bs s = (foldl (\<lambda>s b. fst (body b s)) s bs, None)" .
  from snoc.prems have "snd (body b (foldl (\<lambda>s b. fst (body b s)) s bs)) = None"
    by (auto dest: spec [of _ "length bs"])
  then have "body b (foldl (\<lambda>s b. fst (body b s)) s bs) =
               (fst (body b (foldl (\<lambda>s b. fst (body b s)) s bs)), None)"
    by (simp add: prod_eq_iff)
  with run show ?case
    by (simp add: run_batches_snoc)
qed

lemma length_concat_replicate: "length (concat (replicate k xs)) = k * length xs"
  by (induction k) simp_all

lemma nth_concat_replicate:
  "e < k \<Longrightarrow> i < length xs \<Longrightarrow> concat (replicate k xs) ! (e * length xs + i) = xs ! i"
proof (induction k arbitrary: e)
  case 0
  then show ?case by simp
next
  case (Suc k)
  show ?case
  proof (cases e)
    case 0
    with Suc.prems show ?thesis by (simp add: nth_append)
  next
    case (Suc e')
    with Suc.prems have "e' < k" by simp
    from Suc.IH [OF this Suc.prems(2)] Suc show ?thesis
      by (simp add: nth_append add.assoc)
  qed
qed

lemma length_training_batches: "length (training_batches n) = epochs * (n div batch_size)"
  by (simp add: training_batches_def length_concat_replicate)

lemma nth_training_batches:
  assumes "e < epochs" and "i < n div batch_size"
  shows "training_batches n ! (e * (n div batch_size) + i) = map int [i * 10..<(i + 1) * 10]"
proof -
  have "concat (replicate epochs (map batch_of [0..<n div batch_size]))
          ! (e * length (map batch_of [0..<n div batch_size]) + i)
        = map batch_of [0..<n div batch_size] ! i"
    using assms by (intro nth_concat_replicate) simp_all
  with assms show ?thesis
    by (simp add: training_batches_def batch_of_def batch_size_def)
qed

lemma set_training_batches:
  "b \<in> set (training_batches n) \<Longrightarrow> \<exists>i<n div 10. b = batch_of i"
  by (auto simp: training_batches_def batch_size_def epochs_def)

lemma batch_of_bounds:
  assumes "i < n div 10" and "j \<in> set (batch_of i)"
  shows "0 \<le> j \<and> j < int (n - n mod 10)"
proof -
  from assms(2) obtain m where m: "j = int m" "m < (i + 1) * 10"
    by (auto simp: batch_of_def batch_size_def)
  from assms(1) have "(i + 1) * 10 \<le> (n div 10) * 10" by simp
  also have "\<dots> = n - n mod 10" by (simp add: minus_mod_eq_div_mult)
  finally show ?thesis using m by simp
qed

lemma batch_of_disjoint: "i \<noteq> j \<Longrightarrow> set (batch_of i) \<inter> set (batch_of j) = {}"
proof -
  assume "i \<noteq> j"
  then consider "i < j" | "j < i" by arith
  then show ?thesis
  proof cases
    case 1
    then have "(i + 1) * 10 \<le> j * 10" by simp
    then show ?thesis by (auto simp: batch_of_def batch_size_def)
  next
    case 2
    then have "(j + 1) * 10 \<le> i * 10" by simp
    then show ?thesis by (auto simp: batch_of_def batch_size_def)
  qed
qed

lemma train_step_time_lines:
  "train_step dev nb opt b st = (st', None) \<Longrightarrow> time_lines st' = Suc (time_lines st)"
  by (auto simp: train_step_def split: sum.splits)

lemma run_batches_time_lines:
  "run_batches (train_step dev nb opt) bs st = (st', None) \<Longrightarrow>
     time_lines st' = time_lines st + length bs"
proof (induction bs arbitrary: st)
  case Nil
  then show ?case by simp
next
  case (Cons b bs)
  from Cons.prems obtain st1 where step: "train_step dev nb opt b st = (st1, None)"
    and rest: "run_batches (train_step dev nb opt) bs st1 = (st', None)"
    by (auto split: prod.splits option.splits)
  from Cons.IH [OF rest] train_step_time_lines [OF step] show ?case by simp
qed

lemma cost_batch_slices:
  assumes "(i + 1) * 10 \<le> length (sentences_truncated nb)"
    and "(i + 1) * 10 \<le> length (missing_word nb)"
  shows "cost_batch dev nb (batch_of i) p =
           cost dev nb p (map (\<lambda>k. sentences_truncated nb ! k) [i * 10..<(i + 1) * 10])
             (map (\<lambda>k. missing_word nb ! k) [i * 10..<(i + 1) * 10])"
  using assms
  by (simp add: cost_batch_def batch_of_def batch_size_def and_then_def np_take_range)

lemma train_step_slices:
  assumes "(i + 1) * 10 \<le> length (sentences_truncated nb)"
    and "(i + 1) * 10 \<le> length (missing_word nb)"
  shows "train_step dev nb opt (batch_of i) st =
     (case cost dev nb (cur_parameters st)
             (map (\<lambda>k. sentences_truncated nb ! k) [i * 10..<(i + 1) * 10])
             (map (\<lambda>k. missing_word nb ! k) [i * 10..<(i + 1) * 10]) of
        Inl e \<Rightarrow> (st, Some e)
      | Inr forward \<Rightarrow>
         (case opt (\<lambda>p. cost dev nb p
                      (map (\<lambda>k. sentences_truncated nb ! k) [i * 10..<(i + 1) * 10])
                      (map (\<lambda>k. missing_word nb ! k) [i * 10..<(i + 1) * 10]))
                 (adam_state st) (cur_parameters st) of
            Inl e \<Rightarrow> (st, Some e)
          | Inr (os', p') \<Rightarrow>
              (st\<lparr>cur_parameters := p', adam_state := os', time_lines := Suc (time_lines st)\<rparr>,
               None)))"
proof -
  have "cost_batch dev nb (batch_of i) =
          (\<lambda>p. cost dev nb p (map (\<lambda>k. sentences_truncated nb ! k) [i * 10..<(i + 1) * 10])
                  (map (\<lambda>k. missing_word nb ! k) [i * 10..<(i + 1) * 10]))"
    by (rule ext) (rule cost_batch_slices [OF assms])
  then show ?thesis
    by (simp add: train_step_def opt_step_def split: sum.splits)
qed

lemma np_index_take_agree:
  assumes "take m a = take m b" and "i < m"
  shows "np_index a (int i) = np_index b (int i)"
proof -
  from assms(1) have "length (take m a) = length (take m b)" by simp
  with assms(2) have len: "i < length a \<longleftrightarrow> i < length b"
    by (auto simp: min_def split: if_splits)
  have "a ! i = b ! i" if "i < length a"
  proof -
    from assms(2) have "a ! i = take m a ! i" and "b ! i = take m b ! i" by simp_all
    with assms(1) show ?thesis by simp
  qed
  with len show ?thesis
    by (simp add: np_index_def)
qed

lemma np_take_agree:
  assumes "take m a = take m b" and "\<forall>j\<in>set idx. \<exists>k<m. j = int k"
  shows "np_take a idx = np_take b idx"
  using assms(2)
proof (induction idx)
  case Nil
  show ?case by simp
next
  case (Cons j idx)
  then obtain k where "k < m" and "j = int k" by auto
  moreover from Cons.prems have "\<forall>j\<in>set idx. \<exists>k<m. j = int k" by simp
  from Cons.IH [OF this] have "np_take a idx = np_take b idx" .
  ultimately show ?case
    using np_index_take_agree [OF assms(1), of k] by (simp split: sum.splits)
qed

lemma np_take_length: "np_take a idx = Inr xs \<Longrightarrow> length xs = length idx"
  by (induction idx arbitrary: xs) (auto split: sum.splits)

lemma compute_overlap_words_arrays:
  "compute_overlap_words dev (nb\<lparr>sentences_truncated := S, missing_word := M, all_indices := A\<rparr>) =
     compute_overlap_words dev nb"
proof -
  have "wires (nb\<lparr>sentences_truncated := S, missing_word := M, all_indices := A\<rparr>) = wires nb"
    by (simp add: wires_def n_wires_def max_length_def)
  then show ?thesis
    by (simp add: fun_eq_iff compute_overlap_words_def cong: option.case_cong)
qed

lemma cost_loop_agree:
  assumes "take 10 A = take 10 (all_indices nb)" and "i + length ss \<le> 10"
  shows "cost_loop dev (nb\<lparr>sentences_truncated := S, missing_word := M, all_indices := A\<rparr>) p ss mws i acc =
           cost_loop dev nb p ss mws i acc"
  using assms(2)
proof (induction ss arbitrary: i acc)
  case Nil
  show ?case by simp
next
  case (Cons s ss)
  then have "i < 10" and "Suc i + length ss \<le> 10" by simp_all
  with np_index_take_agree [OF assms(1), of i] Cons.IH [of "Suc i"] show ?case
    by (simp add: compute_overlap_words_arrays split: sum.splits)
qed

lemma batch_of_naturals:
  assumes "i < n div 10"
  shows "\<forall>j\<in>set (batch_of i). \<exists>k<n - n mod 10. j = int k"
proof
  fix j assume j: "j \<in> set (batch_of i)"
  from batch_of_bounds [OF assms j] have "0 \<le> j" and "j < int (n - n mod 10)"
    by blast+
  then have "nat j < n - n mod 10" and "j = int (nat j)"
    by (simp_all only: nat_less_iff int_nat_eq if_True)
  then show "\<exists>k<n - n mod 10. j = int k" by blast
qed

lemma cost_batch_agree:
  assumes "take (n - n mod 10) S = take (n - n mod 10) (sentences_truncated nb)"
    and "take (n - n mod 10) M = take (n - n mod 10) (missing_word nb)"
    and "take 10 A = take 10 (all_indices nb)"
    and "i < n div 10"
  shows "cost_batch dev (nb\<lparr>sentences_truncated := S, missing_word := M, all_indices := A\<rparr>) (batch_of i) p =
           cost_batch dev nb (batch_of i) p"
proof -
  let ?nb = "nb\<lparr>sentences_truncated := S, missing_word := M, all_indices := A\<rparr>"
  have s: "np_take S (batch_of i) = np_take (sentences_truncated nb) (batch_of i)"
    by (rule np_take_agree [OF assms(1) batch_of_naturals [OF assms(4)]])
  have m: "np_take M (batch_of i) = np_take (missing_word nb) (batch_of i)"
    by (rule np_take_agree [OF assms(2) batch_of_naturals [OF assms(4)]])
  have "cost dev ?nb p ss mws = cost dev nb p ss mws"
    if "np_take (sentences_truncated nb) (batch_of i) = Inr ss" for ss mws
  proof -
    from np_take_length [OF that] have "0 + length ss \<le> 10"
      by (simp add: batch_of_def batch_size_def)
    from cost_loop_agree [OF assms(3) this] show ?thesis
      by (simp add: cost_def)
  qed
  then show ?thesis
    by (simp add: cost_batch_def and_then_def s m split: sum.splits)
qed

lemma run_batches_cong:
  "\<forall>b\<in>set bs. \<forall>s. f b s = g b s \<Longrightarrow> run_batches f bs s = run_batches g bs s"
  by (induction bs arbitrary: s) (simp_all split: prod.splits option.splits)

lemma training_cell_agree:
  assumes "length S = length (sentences_truncated nb)"
    and "take (length S - length S mod 10) S = take (length S - length S mod 10) (sentences_truncated nb)"
    and "take (length S - length S mod 10) M = take (length S - length S mod 10) (missing_word nb)"
    and "take 10 A = take 10 (all_indices nb)"
  shows "training_cell dev (nb\<lparr>sentences_truncated := S, missing_word := M, all_indices := A\<rparr>) opt os drawn =
           training_cell dev nb opt os drawn"
proof -
  let ?nb = "nb\<lparr>sentences_truncated := S, missing_word := M, all_indices := A\<rparr>"
  let ?n = "length S"
  have "train_step dev ?nb opt b st = train_step dev nb opt b st"
    if "b \<in> set (training_batches ?n)" for b st
  proof -
    from set_training_batches [OF that] obtain i where i: "i < ?n div 10" and b: "b = batch_of i"
      by blast
    have "cost_batch dev ?nb (batch_of i) = cost_batch dev nb (batch_of i)"
      by (rule ext) (rule cost_batch_agree [OF assms(2,3,4) i])
    then show ?thesis
      by (simp add: train_step_def b)
  qed
  then have "run_batches (train_step dev ?nb opt) (training_batches ?n) st =
             run_batches (train_step dev nb opt) (training_batches ?n) st" for st
    by (intro run_batches_cong) simp
  then show ?thesis
    by (simp add: training_cell_def training_loop_run_batches initial_parameters_def assms(1) [symmetric])
qed

text \<open>
  Claim C8. Under the precondition that every optimizer step returns (each step of the
  cell, run in the state the steps before it have left, raises nothing), the training
  cell ends without an exception after \<open>epochs * (n // batch_size)\<close> steps, one printed
  line each, where \<open>n\<close> is the number of sentences, \<open>epochs = 2\<close> and \<open>batch_size = 10\<close>. The
  cell runs \<open>train_step\<close> on the batches of \<open>training_batches n\<close> in that order; the \<open>i\<close>-th
  step of each epoch is handed the indices \<open>[i*10, (i+1)*10)\<close>, and the batches of two
  different \<open>i\<close> are disjoint. The step on batch \<open>i\<close> evaluates \<open>cost\<close> at the current
  parameters on the rows \<open>[i*10, (i+1)*10)\<close> of \<open>sentences_truncated\<close> and of
  \<open>missing_word\<close>, stops with its exception when it raises, and otherwise hands this cost
  to the optimizer, whose result it binds. The trailing \<open>n mod 10\<close> sentences are used by
  no step: whatever stands in the rows of \<open>sentences_truncated\<close> and \<open>missing_word\<close> from
  \<open>n - n mod 10\<close> on, and in the rows of \<open>all_indices\<close> from 10 on, the cell ends in the
  same state.
\<close>

theorem training_cell_schedule:
  assumes len: "length (missing_word nb) = length (sentences_truncated nb)"
    and returns:
      "\<forall>k<length (training_batches (length (sentences_truncated nb))).
         snd (train_step dev nb opt (training_batches (length (sentences_truncated nb)) ! k)
                (foldl (\<lambda>s b. fst (train_step dev nb opt b s))
                   \<lparr>cur_parameters = initial_parameters nb drawn, adam_state = os, time_lines = 0\<rparr>
                   (take k (training_batches (length (sentences_truncated nb)))))) = None"
  shows "training_cell dev nb opt os drawn =
           (foldl (\<lambda>s b. fst (train_step dev nb opt b s))
              \<lparr>cur_parameters = initial_parameters nb drawn, adam_state = os, time_lines = 0\<rparr>
              (training_batches (length (sentences_truncated nb))), None)
     \<and> time_lines (fst (training_cell dev nb opt os drawn)) =
         epochs * (length (sentences_truncated nb) div batch_size)
     \<and> epochs = 2 \<and> batch_size = 10
     \<and> (\<forall>e<epochs. \<forall>i<length (sentences_truncated nb) div batch_size.
          training_batches (length (sentences_truncated nb))
            ! (e * (length (sentences_truncated nb) div batch_size) + i) = map int [i * 10..<(i + 1) * 10])
     \<and> (\<forall>i j. i \<noteq> j \<longrightarrow> set (batch_of i) \<inter> set (batch_of j) = {})
     \<and> (\<forall>i<length (sentences_truncated nb) div batch_size. \<forall>st.
          train_step dev nb opt (batch_of i) st =
            (case cost dev nb (cur_parameters st)
                    (map (\<lambda>k. sentences_truncated nb ! k) [i * 10..<(i + 1) * 10])
                    (map (\<lambda>k. missing_word nb ! k) [i * 10..<(i + 1) * 10]) of
               Inl e \<Rightarrow> (st, Some e)
             | Inr forward \<Rightarrow>
                (case opt (\<lambda>p. cost dev nb p
                             (map (\<lambda>k. sentences_truncated nb ! k) [i * 10..<(i + 1) * 10])
                             (map (\<lambda>k. missing_word nb ! k) [i * 10..<(i + 1) * 10]))
                        (adam_state st) (cur_parameters st) of
                   Inl e \<Rightarrow> (st, Some e)
                 | Inr (os', p') \<Rightarrow>
                     (st\<lparr>cur_parameters := p', adam_state := os',
                         time_lines := Suc (time_lines st)\<rparr>, None))))
     \<and> (\<forall>S M A.
          length S = length (sentences_truncated nb) \<longrightarrow>
          take (length S - length S mod 10) S = take (length S - length S mod 10) (sentences_truncated nb) \<longrightarrow>
          take (length S - length S mod 10) M = take (length S - length S mod 10) (missing_word nb) \<longrightarrow>
          take 10 A = take 10 (all_indices nb) \<longrightarrow>
            training_cell dev (nb\<lparr>sentences_truncated := S, missing_word := M, all_indices := A\<rparr>)
              opt os drawn = training_cell dev nb opt os drawn)"
proof -
  let ?n = "length (sentences_truncated nb)"
  let ?st0 = "\<lparr>cur_parameters = initial_parameters nb drawn, adam_state = os, time_lines = 0\<rparr>"
  let ?end = "foldl (\<lambda>s b. fst (train_step dev nb opt b s)) ?st0 (training_batches ?n)"
  have run: "run_batches (train_step dev nb opt) (training_batches ?n) ?st0 = (?end, None)"
    by (rule run_batches_all_return [OF returns])
  then have cell: "training_cell dev nb opt os drawn = (?end, None)"
    by (simp add: training_cell_def training_loop_run_batches)
  from run_batches_time_lines [OF run]
  have lines: "time_lines (fst (training_cell dev nb opt os drawn)) = epochs * (?n div batch_size)"
    by (simp add: cell length_training_batches)
  have step: "train_step dev nb opt (batch_of i) st =
            (case cost dev nb (cur_parameters st)
                    (map (\<lambda>k. sentences_truncated nb ! k) [i * 10..<(i + 1) * 10])
                    (map (\<lambda>k. missing_word nb ! k) [i * 10..<(i + 1) * 10]) of
               Inl e \<Rightarrow> (st, Some e)
             | Inr forward \<Rightarrow>
                (case opt (\<lambda>p. cost dev nb p
                             (map (\<lambda>k. sentences_truncated nb ! k) [i * 10..<(i + 1) * 10])
                             (map (\<lambda>k. missing_word nb ! k) [i * 10..<(i + 1) * 10]))
                        (adam_state st) (cur_parameters st) of
                   Inl e \<Rightarrow> (st, Some e)
                 | Inr (os', p') \<Rightarrow>
                     (st\<lparr>cur_parameters := p', adam_state := os',
                         time_lines := Suc (time_lines st)\<rparr>, None)))"
    if "i < ?n div batch_size" for i st
  proof -
    from that have "(i + 1) * 10 \<le> (?n div 10) * 10"
      by (simp add: batch_size_def)
    also have "\<dots> \<le> ?n" by simp
    finally have "(i + 1) * 10 \<le> ?n" .
    then show ?thesis
      by (intro train_step_slices) (simp_all add: len)
  qed
  have batches: "training_batches ?n ! (e * (?n div batch_size) + i) = map int [i * 10..<(i + 1) * 10]"
    if "e < epochs" and "i < ?n div batch_size" for e i
    using that by (rule nth_training_batches)
  show ?thesis
  proof (intro conjI allI impI)
    show "training_cell dev nb opt os drawn = (?end, None)"
      by (rule cell)
    show "time_lines (fst (training_cell dev nb opt os drawn)) = epochs * (?n div batch_size)"
      by (rule lines)
    show "epochs = 2"
      by (simp add: epochs_def)
    show "batch_size = 10"
      by (simp add: batch_size_def)
  next
    fix e i
    assume "e < epochs" and "i < ?n div batch_size"
    then show "training_batches ?n ! (e * (?n div batch_size) + i) = map int [i * 10..<(i + 1) * 10]"
      by (rule batches)
  next
    fix i j :: nat
    assume "i \<noteq> j"
    then show "set (batch_of i) \<inter> set (batch_of j) = {}"
      by (rule batch_of_disjoint)
  next
    fix i st
    assume "i < ?n div batch_size"
    then show "train_step dev nb opt (batch_of i) st =
            (case cost dev nb (cur_parameters st)
                    (map (\<lambda>k. sentences_truncated nb ! k) [i * 10..<(i + 1) * 10])
                    (map (\<lambda>k. missing_word nb ! k) [i * 10..<(i + 1) * 10]) of
               Inl e \<Rightarrow> (st, Some e)
             | Inr forward \<Rightarrow>
                (case opt (\<lambda>p. cost dev nb p
                             (map (\<lambda>k. sentences_truncated nb ! k) [i * 10..<(i + 1) * 10])
                             (map (\<lambda>k. missing_word nb ! k) [i * 10..<(i + 1) * 10]))
                        (adam_state st) (cur_parameters st) of
                   Inl e \<Rightarrow> (st, Some e)
                 | Inr (os', p') \<Rightarrow>
                     (st\<lparr>cur_parameters := p', adam_state := os',
                         time_lines := Suc (time_lines st)\<rparr>, None)))"
      by (rule step)
  next
    fix S M A
    assume "length S = length (sentences_truncated nb)"
      and "take (length S - length S mod 10) S = take (length S - length S mod 10) (sentences_truncated nb)"
      and "take (length S - length S mod 10) M = take (length S - length S mod 10) (missing_word nb)"
      and "take 10 A = take 10 (all_indices nb)"
    then show "training_cell dev (nb\<lparr>sentences_truncated := S, missing_word := M, all_indices := A\<rparr>)
              opt os drawn = training_cell dev nb opt os drawn"
      by (rule training_cell_agree)
  qed
qed

lemma demo_batches25: "training_batches 25 = [batch_of 0, batch_of 1, batch_of 0, batch_of 1]"
  by (simp add: training_batches_def epochs_def batch_size_def numeral_2_eq_2 upt_rec)

lemma demo_batch_of: "batch_of 0 = map int [0..<10]" "batch_of 1 = map int [10..<20]"
  by (simp_all add: batch_of_def batch_size_def)

lemma demo_train_step25:
  assumes "cur_parameters st = initial_parameters demo_nb25 demo_drawn"
  shows "train_step demo_dev_mask demo_nb25 demo_opt_log (batch_of 0) st =
           (st\<lparr>adam_state := adam_state st @ [0], time_lines := Suc (time_lines st)\<rparr>, None)"
    and "train_step demo_dev_mask demo_nb25 demo_opt_log (batch_of 1) st =
           (st\<lparr>adam_state := adam_state st @ [10], time_lines := Suc (time_lines st)\<rparr>, None)"
  using assms
  by (simp_all only: demo_batch_of train_step_def opt_step_def demo_opt_log_def demo_cost_batch25)
     simp_all

theorem training_cell_schedule_witness:
  "length (missing_word demo_nb25) = length (sentences_truncated demo_nb25)
   \<and> length (sentences_truncated demo_nb25) = 25
   \<and> training_batches 25 = [batch_of 0, batch_of 1, batch_of 0, batch_of 1]
   \<and> snd (train_step demo_dev_mask demo_nb25 demo_opt_log (batch_of 0)
        \<lparr>cur_parameters = initial_parameters demo_nb25 demo_drawn, adam_state = [], time_lines = 0\<rparr>) = None
   \<and> snd (train_step demo_dev_mask demo_nb25 demo_opt_log (batch_of 1)
        \<lparr>cur_parameters = initial_parameters demo_nb25 demo_drawn, adam_state = [0], time_lines = 1\<rparr>) = None
   \<and> snd (train_step demo_dev_mask demo_nb25 demo_opt_log (batch_of 0)
        \<lparr>cur_parameters = initial_parameters demo_nb25 demo_drawn, adam_state = [0, 10], time_lines = 2\<rparr>) = None
   \<and> snd (train_step demo_dev_mask demo_nb25 demo_opt_log (batch_of 1)
        \<lparr>cur_parameters = initial_parameters demo_nb25 demo_drawn, adam_state = [0, 10, 0], time_lines = 3\<rparr>) = None
   \<and> training_cell demo_dev_mask demo_nb25 demo_opt_log [] demo_drawn =
       (\<lparr>cur_parameters = initial_parameters demo_nb25 demo_drawn, adam_state = [0, 10, 0, 10],
         time_lines = 4\<rparr>, None)
   \<and> time_lines (fst (training_cell demo_dev_mask demo_nb25 demo_opt_log [] demo_drawn)) = 4
   \<and> epochs * (25 div batch_size) = 4
   \<and> training_batches 25 ! (1 * (25 div batch_size) + 1) = map int [10..<20]
   \<and> set (batch_of 0) \<inter> set (batch_of 1) = {}
   \<and> cost demo_dev_mask demo_nb25 (initial_parameters demo_nb25 demo_drawn)
        (map (\<lambda>k. sentences_truncated demo_nb25 ! k) [10..<20])
        (map (\<lambda>k. missing_word demo_nb25 ! k) [10..<20]) = Inr 10
   \<and> training_cell demo_dev_mask
        (demo_nb25\<lparr>sentences_truncated := replicate 10 [0, 2] @ replicate 10 [2, 0] @ replicate 5 [2, 2],
                   missing_word := replicate 10 0 @ replicate 10 1 @ replicate 5 1,
                   all_indices := replicate 10 [2, 1] @ replicate 15 [0, 2]\<rparr>)
        demo_opt_log [] demo_drawn =
       (\<lparr>cur_parameters = initial_parameters demo_nb25 demo_drawn, adam_state = [0, 10, 0, 10],
         time_lines = 4\<rparr>, None)"
proof -
  let ?p = "initial_parameters demo_nb25 demo_drawn"
  let ?step = "train_step demo_dev_mask demo_nb25 demo_opt_log"
  let ?st0 = "\<lparr>cur_parameters = ?p, adam_state = [], time_lines = 0\<rparr>"
  let ?end = "\<lparr>cur_parameters = ?p, adam_state = [0, 10, 0, 10], time_lines = 4\<rparr>"
  have n: "length (sentences_truncated demo_nb25) = 25"
    and len: "length (missing_word demo_nb25) = length (sentences_truncated demo_nb25)"
    by (simp_all add: demo_nb25_fields)
  have steps:
    "?step (batch_of 0) ?st0 = (\<lparr>cur_parameters = ?p, adam_state = [0], time_lines = 1\<rparr>, None)"
    "?step (batch_of 1) \<lparr>cur_parameters = ?p, adam_state = [0], time_lines = 1\<rparr> =
       (\<lparr>cur_parameters = ?p, adam_state = [0, 10], time_lines = 2\<rparr>, None)"
    "?step (batch_of 0) \<lparr>cur_parameters = ?p, adam_state = [0, 10], time_lines = 2\<rparr> =
       (\<lparr>cur_parameters = ?p, adam_state = [0, 10, 0], time_lines = 3\<rparr>, None)"
    "?step (batch_of 1) \<lparr>cur_parameters = ?p, adam_state = [0, 10, 0], time_lines = 3\<rparr> = (?end, None)"
    by (simp_all add: demo_train_step25 del: One_nat_def)
  note steps' = steps [unfolded One_nat_def]
  have returns: "\<forall>k<length (training_batches (length (sentences_truncated demo_nb25))).
         snd (?step (training_batches (length (sentences_truncated demo_nb25)) ! k)
                (foldl (\<lambda>s b. fst (?step b s)) ?st0
                   (take k (training_batches (length (sentences_truncated demo_nb25)))))) = None"
  proof (intro allI impI)
    fix k
    assume "k < length (training_batches (length (sentences_truncated demo_nb25)))"
    then have "k < 4"
      unfolding n demo_batches25 by simp
    then have "k = 0 \<or> k = 1 \<or> k = 2 \<or> k = 3"
      by arith
    then show "snd (?step (training_batches (length (sentences_truncated demo_nb25)) ! k)
                (foldl (\<lambda>s b. fst (?step b s)) ?st0
                   (take k (training_batches (length (sentences_truncated demo_nb25)))))) = None"
      unfolding n demo_batches25 by (elim disjE) (simp_all add: steps steps')
  qed
  note inst = training_cell_schedule [OF len returns]
  from inst have "training_cell demo_dev_mask demo_nb25 demo_opt_log [] demo_drawn =
      (foldl (\<lambda>s b. fst (?step b s)) ?st0 (training_batches (length (sentences_truncated demo_nb25))), None)"
    by (rule conjunct1)
  then have cell: "training_cell demo_dev_mask demo_nb25 demo_opt_log [] demo_drawn = (?end, None)"
    unfolding n demo_batches25 by (simp add: steps steps')
  from inst have "time_lines (fst (training_cell demo_dev_mask demo_nb25 demo_opt_log [] demo_drawn)) =
      epochs * (length (sentences_truncated demo_nb25) div batch_size)"
    by (rule conjunct2 [THEN conjunct1])
  then have lines: "time_lines (fst (training_cell demo_dev_mask demo_nb25 demo_opt_log [] demo_drawn)) = 4"
    and count: "epochs * (25 div batch_size) = 4"
    unfolding n by (simp_all add: cell)
  have batch: "training_batches 25 ! (1 * (25 div batch_size) + 1) = map int [10..<20]"
    by (simp add: demo_batches25 batch_size_def demo_batch_of [unfolded One_nat_def]
        del: upt_rec_numeral)
  have disjoint: "set (batch_of 0) \<inter> set (batch_of 1) = {}"
    using inst by simp
  have "1 < length (sentences_truncated demo_nb25) div batch_size"
    by (simp add: n batch_size_def)
  note second = inst [THEN conjunct2, THEN conjunct2, THEN conjunct2, THEN conjunct2, THEN conjunct2,
      THEN conjunct2, THEN conjunct1, rule_format, OF this,
      of "\<lparr>cur_parameters = ?p, adam_state = [0], time_lines = 1\<rparr>"]
  let ?c = "cost demo_dev_mask demo_nb25 ?p
        (map (\<lambda>k. sentences_truncated demo_nb25 ! k) [1 * 10..<(1 + 1) * 10])
        (map (\<lambda>k. missing_word demo_nb25 ! k) [1 * 10..<(1 + 1) * 10])"
  have "?c = Inr 10"
  proof (cases ?c)
    case (Inl e)
    with second steps(2) show ?thesis by simp
  next
    case (Inr v)
    with second steps(2) show ?thesis by (simp add: demo_opt_log_def)
  qed
  then have forward: "cost demo_dev_mask demo_nb25 ?p
        (map (\<lambda>k. sentences_truncated demo_nb25 ! k) [10..<20])
        (map (\<lambda>k. missing_word demo_nb25 ! k) [10..<20]) = Inr 10"
    by (simp del: upt_rec_numeral)
  have "training_cell demo_dev_mask
        (demo_nb25\<lparr>sentences_truncated := replicate 10 [0, 2] @ replicate 10 [2, 0] @ replicate 5 [2, 2],
                   missing_word := replicate 10 0 @ replicate 10 1 @ replicate 5 1,
                   all_indices := replicate 10 [2, 1] @ replicate 15 [0, 2]\<rparr>)
        demo_opt_log [] demo_drawn = training_cell demo_dev_mask demo_nb25 demo_opt_log [] demo_drawn"
    by (rule inst [THEN conjunct2, THEN conjunct2, THEN conjunct2, THEN conjunct2, THEN conjunct2,
          THEN conjunct2, THEN conjunct2, rule_format])
       (simp_all add: demo_nb25_fields)
  with cell have trailing: "training_cell demo_dev_mask
        (demo_nb25\<lparr>sentences_truncated := replicate 10 [0, 2] @ replicate 10 [2, 0] @ replicate 5 [2, 2],
                   missing_word := replicate 10 0 @ replicate 10 1 @ replicate 5 1,
                   all_indices := replicate 10 [2, 1] @ replicate 15 [0, 2]\<rparr>)
        demo_opt_log [] demo_drawn = (?end, None)"
    by simp
  from len n demo_batches25 steps cell lines count batch disjoint forward trailing show ?thesis
    by (simp only: snd_conv simp_thms)
qed

section \<open>The device error of the training cell\<close>






lemma cost_first_raises:
  assumes "np_take (embeddings_reduced_norm nb) sentence = Inr embeddings"
    and "np_index (all_indices nb) 0 = Inr indices"
    and "np_index mws 0 = Inr m_w"
    and "compute_overlap_words dev nb p embeddings indices m_w = Inl e"
  shows "cost dev nb p (sentence # rest) mws = Inl e"
  using assms by (simp add: cost_def)

lemma train_step_raises:
  "cost_batch dev nb b (cur_parameters st) = Inl e \<Longrightarrow> train_step dev nb opt b st = (st, Some e)"
  by (simp add: train_step_def opt_step_def)

lemma run_batches_stops:
  assumes "k < length bs"
    and "run_batches body (take k bs) s = (s', None)"
    and "body (bs ! k) s' = (s'', Some e)"
  shows "run_batches body bs s = (s'', Some e)"
proof -
  have "bs = take k bs @ bs ! k # drop (Suc k) bs"
    using assms(1) by (simp add: id_take_nth_drop)
  then have "run_batches body bs s = run_batches body (take k bs @ bs ! k # drop (Suc k) bs) s"
    by simp
  also have "\<dots> = (s'', Some e)"
    using assms(2,3) by (simp only: run_batches_append) simp
  finally show ?thesis .
qed



section \<open>Properties of the masking\<close>

lemma preprocessing_returns:
  assumes "preprocessing fl fs gen fit nb = Inr nb'"
  shows "\<exists>embeddings sentences labels mw reduced ern ai vocab d.
     embeddings_npy fs = Inr embeddings \<and> sentences_npy fs = Inr sentences
     \<and> labels_npy fs = Inr labels
     \<and> randint gen 0 (int (num_words nb)) (length sentences) = Inr mw
     \<and> embeddings_reduced_of fl fit (2 ^ qbits_per_word nb) embeddings = Inr reduced
     \<and> embeddings_reduced_norm_of fl (2 ^ qbits_per_word nb) embeddings reduced = Inr ern
     \<and> all_indices_loop [0..<length sentences] mw (max_length nb)
          (replicate (length sentences) (np_arange (max_length nb))) = (ai, None)
     \<and> vocab_p fs = Inr vocab \<and> id_to_word_loop fl vocab ern [] = Inr d
     \<and> nb' = nb\<lparr>missing_word := mw, embeddings_reduced_norm := ern,
                 sentences_truncated := map (take (max_length nb)) sentences,
                 all_indices := ai, word_indices := map fst d\<rparr>"
  using assms
  by (auto simp: preprocessing_def preprocessing_cell_def Let_def
      split: sum.splits prod.splits option.splits)

lemma np_index_nat: "np_index xs (int i) = Inr x \<Longrightarrow> i < length xs \<and> x = xs ! i"
  by (simp add: np_index_def split: if_splits)

lemma np_setitem2_nat:
  assumes "np_setitem2 a (int i) j v = Inr a'" and "0 \<le> j"
  shows "a' = a[i := (a ! i)[nat j := v]]"
  using assms by (simp add: np_setitem2_def Let_def split: if_splits)

lemma all_indices_loop_result:
  assumes "all_indices_loop is mw ml a = (a', None)"
    and "\<forall>k\<in>set is. 0 \<le> mw ! k"
    and "distinct is"
  shows "length a' = length a \<and>
         (\<forall>k<length a. a' ! k = (if k \<in> set is then (a ! k)[nat (mw ! k) := int ml] else a ! k))"
  using assms
proof (induction "is" arbitrary: a)
  case Nil
  then show ?case by simp
next
  case (Cons i "is")
  from Cons.prems(1) obtain j a1 where j: "np_index mw (int i) = Inr j"
    and a1: "np_setitem2 a (int i) j (int ml) = Inr a1"
    and rest: "all_indices_loop is mw ml a1 = (a', None)"
    by (auto split: sum.splits)
  from np_index_nat [OF j] have jv: "j = mw ! i" by simp
  with Cons.prems(2) have "0 \<le> j" by simp
  from np_setitem2_nat [OF a1 this] jv have a1_eq: "a1 = a[i := (a ! i)[nat (mw ! i) := int ml]]"
    by simp
  from Cons.prems have "\<forall>k\<in>set is. 0 \<le> mw ! k" "distinct is" "i \<notin> set is" by simp_all
  note tail = this
  from Cons.IH [OF rest tail(1,2)]
  have len: "length a' = length a1"
    and nth: "\<forall>k<length a1. a' ! k = (if k \<in> set is then (a1 ! k)[nat (mw ! k) := int ml] else a1 ! k)"
    by simp_all
  have "a' ! k = (if k \<in> set (i # is) then (a ! k)[nat (mw ! k) := int ml] else a ! k)"
    if k: "k < length a" for k
  proof (cases "k = i")
    case True
    with nth k tail(3) show ?thesis by (simp add: a1_eq)
  next
    case False
    with nth k show ?thesis by (simp add: a1_eq)
  qed
  with len show ?case by (simp add: a1_eq)
qed

lemma randint_range:
  assumes "randint gen low high n = Inr xs"
  shows "length xs = n \<and> (\<forall>k<n. low \<le> xs ! k \<and> xs ! k < high)"
proof (cases "n = 0")
  case True
  with assms show ?thesis by (simp add: randint_def)
next
  case False
  with assms have lt: "low < high" and xs: "xs = map (\<lambda>k. low + int (gen k mod nat (high - low))) [0..<n]"
    by (auto simp: randint_def split: if_splits)
  have "int (gen k mod nat (high - low)) < high - low" for k
  proof -
    from lt have "gen k mod nat (high - low) < nat (high - low)" by simp
    then have "int (gen k mod nat (high - low)) < int (nat (high - low))" by (simp only: of_nat_less_iff)
    with lt show ?thesis by simp
  qed
  then show ?thesis
    using xs by (auto simp: add.commute less_diff_eq)
qed

lemma one_marked:
  assumes "m < ml"
  shows "length (filter (\<lambda>x. x = int ml) ((np_arange ml)[m := int ml])) = 1"
proof -
  have "(np_arange ml)[m := int ml] = take m (np_arange ml) @ int ml # drop (Suc m) (np_arange ml)"
    using assms by (simp add: upd_conv_take_nth_drop np_arange_def)
  moreover have "filter (\<lambda>x. x = int ml) (take m (np_arange ml)) = []"
    by (auto simp: filter_empty_conv np_arange_def dest!: in_set_takeD)
  moreover have "filter (\<lambda>x. x = int ml) (drop (Suc m) (np_arange ml)) = []"
    by (auto simp: filter_empty_conv np_arange_def dest!: in_set_dropD)
  ultimately show ?thesis by simp
qed

lemma preprocessing_masking:
  assumes "preprocessing fl fs gen fit nb = Inr nb'" and "sentences_npy fs = Inr sentences"
  shows "randint gen 0 (int (num_words nb)) (length sentences) = Inr (missing_word nb')
       \<and> all_indices_loop [0..<length sentences] (missing_word nb') (max_length nb)
            (replicate (length sentences) (np_arange (max_length nb))) = (all_indices nb', None)"
  using preprocessing_returns [OF assms(1)] assms(2) by auto

text \<open>
  Claim C7. After the preprocessing cell has run, the masking data of every sentence
  index \<open>i\<close> are well formed. There is one entry of \<open>missing_word\<close> and one row of
  \<open>all_indices\<close> per sentence; \<open>missing_word[i]\<close> lies in \<open>[0, num_words)\<close>; the row
  \<open>all_indices[i]\<close> is the sequence \<open>0, 1, ..., max_length-1\<close> except at the position
  \<open>missing_word[i]\<close>, where its value is \<open>max_length\<close>; hence exactly one position of the
  row is marked as masked.
\<close>

theorem masking_well_formed:
  assumes "preprocessing fl fs gen fit nb = Inr nb'"
    and "sentences_npy fs = Inr sentences"
    and "i < length sentences"
  shows "length (missing_word nb') = length sentences
     \<and> length (all_indices nb') = length sentences
     \<and> 0 \<le> missing_word nb' ! i \<and> missing_word nb' ! i < int (num_words nb)
     \<and> all_indices nb' ! i =
         (map int [0..<max_length nb])[nat (missing_word nb' ! i) := int (max_length nb)]
     \<and> length (filter (\<lambda>x. x = int (max_length nb)) (all_indices nb' ! i)) = 1"
proof -
  let ?n = "length sentences"
  let ?mw = "missing_word nb'"
  from preprocessing_masking [OF assms(1,2)]
  have draw: "randint gen 0 (int (num_words nb)) ?n = Inr ?mw"
    and loop: "all_indices_loop [0..<?n] ?mw (max_length nb)
        (replicate ?n (np_arange (max_length nb))) = (all_indices nb', None)"
    by simp_all
  from randint_range [OF draw]
  have len: "length ?mw = ?n" and range: "\<forall>k<?n. 0 \<le> ?mw ! k \<and> ?mw ! k < int (num_words nb)"
    by simp_all
  have "\<forall>k\<in>set [0..<?n]. 0 \<le> ?mw ! k"
    using range by simp
  from all_indices_loop_result [OF loop this]
  have rows: "length (all_indices nb') = ?n"
    and row: "all_indices nb' ! i = (np_arange (max_length nb))[nat (?mw ! i) := int (max_length nb)]"
    using assms(3) by simp_all
  from range assms(3) have "nat (?mw ! i) < max_length nb"
    by (auto simp: max_length_def nat_less_iff)
  from one_marked [OF this] row len rows range assms(3) show ?thesis
    by (simp add: np_arange_def)
qed

lemma demo_norms:
  "np_linalg_norm demo_float [Float 1, Float 0, Float 0] = Float 1"
  "np_linalg_norm demo_float [Float 0, Float 0, Float 0] = Float 0"
  "np_linalg_norm demo_float [Float 0, Float 2, Float 0] = Float 2"
  "np_linalg_norm demo_float [Float 1, Float 0] = Float 1"
  "np_linalg_norm demo_float [Float 0, Float 0] = Float 0"
  "np_linalg_norm demo_float [Float 0, Float 2] = Float 2"
  "np_linalg_norm demo_float [Float 0, Float 1] = Float 1"
  by (simp_all add: demo_float_def demo_norm_def)

lemma demo_quotients:
  "np_true_divide demo_float (Float 1) (Float 1) = Float 1"
  "np_true_divide demo_float (Float 0) (Float 1) = Float 0"
  "np_true_divide demo_float (Float 0) (Float 2) = Float 0"
  "np_true_divide demo_float (Float 2) (Float 2) = Float 1"
  by (simp_all add: demo_float_def)

lemma demo_reduced:
  "embeddings_reduced_of demo_float demo_pca 2
     [[Float 1, Float 0, Float 0], [Float 0, Float 0, Float 0], [Float 0, Float 2, Float 0]] =
   Inr [[Float 1, Float 0], [Float 0, Float 0], [Float 0, Float 2]]"
  by (simp add: embeddings_reduced_of_def positive_norms_def demo_norms np_mask_select_def
      demo_pca_def and_then_def np_mask_assign_def numeral_eq_Suc)

lemma demo_reduced_norm:
  "embeddings_reduced_norm_of demo_float 2
     [[Float 1, Float 0, Float 0], [Float 0, Float 0, Float 0], [Float 0, Float 2, Float 0]]
     [[Float 1, Float 0], [Float 0, Float 0], [Float 0, Float 2]] =
     Inr [[Float 1, Float 0], [Float 0, Float 0], [Float 0, Float 1]]"
  by (simp add: embeddings_reduced_norm_of_def positive_norms_def demo_norms demo_quotients
      np_mask_select_def np_mask_assign_def numeral_eq_Suc)

lemma demo_randint: "randint demo_gen 0 2 10 = Inr [0, 1, 0, 1, 0, 1, 0, 1, 0, 1]"
  by (simp add: randint_def demo_gen_def upt_rec)

lemma demo_all_indices:
  "all_indices_loop [0..<10] [0, 1, 0, 1, 0, 1, 0, 1, 0, 1] 2 (replicate 10 (np_arange 2)) =
     ([[2, 1], [0, 2], [2, 1], [0, 2], [2, 1], [0, 2], [2, 1], [0, 2], [2, 1], [0, 2]], None)"
  by (simp add: upt_rec np_arange_def np_index_def np_setitem2_def numeral_eq_Suc)

lemma demo_id_to_word:
  "id_to_word_loop demo_float [(''january'', 0), (''pad'', 1), (''comet'', 2)]
     [[Float 1, Float 0], [Float 0, Float 0], [Float 0, Float 1]] [] =
   Inr [(0, ''january''), (2, ''comet'')]"
  by (simp add: np_index_def demo_norms)

lemma demo_truncated: "map (take 2) (replicate 10 [0, 2, 2::int]) = replicate 10 [0, 2]"
  by (simp add: take_Cons')

lemma demo_preprocessing_cell:
  "preprocessing_cell demo_float demo_files demo_gen demo_pca demo_config = (demo_nb, None)"
  by (simp add: preprocessing_cell_def demo_files_def demo_config_def demo_nb_def
      max_length_def demo_reduced demo_reduced_norm demo_randint demo_all_indices demo_id_to_word
      demo_truncated del: id_to_word_loop.simps all_indices_loop.simps)

lemma demo_preprocessing: "preprocessing demo_float demo_files demo_gen demo_pca demo_config = Inr demo_nb"
  by (simp add: preprocessing_def demo_preprocessing_cell)

lemma demo_config_fields:
  "num_words demo_config = 2" "qbits_per_word demo_config = 1" "max_length demo_config = 2"
  by (simp_all add: demo_config_def max_length_def)

theorem masking_well_formed_witness:
  "preprocessing demo_float demo_files demo_gen demo_pca demo_config = Inr demo_nb
   \<and> sentences_npy demo_files = Inr (replicate 10 [0, 2, 2])
   \<and> 3 < length (replicate 10 [0, 2, 2::int])
   \<and> missing_word demo_nb ! 3 = 1
   \<and> all_indices demo_nb ! 3 = [0, 2]
   \<and> length (filter (\<lambda>x. x = 2) (all_indices demo_nb ! 3)) = 1"
proof -
  have pre: "preprocessing demo_float demo_files demo_gen demo_pca demo_config = Inr demo_nb"
    by (rule demo_preprocessing)
  have sents: "sentences_npy demo_files = Inr (replicate 10 [0, 2, 2])"
    by (simp add: demo_files_def)
  have i: "3 < length (replicate 10 [0, 2, 2::int])"
    by simp
  from masking_well_formed [OF pre sents i] pre sents i show ?thesis
    by (simp add: demo_nb_fields demo_config_fields upt_rec)
qed

section \<open>Properties of the normalized embeddings\<close>



















section \<open>Propagation of exceptions\<close>

lemma sum_in_order_stops:
  "\<forall>r\<in>set rs. \<exists>v. r = Inr v \<Longrightarrow> sum_in_order acc (rs @ Inl e # rest) = Inl e"
  by (induction rs arbitrary: acc) auto

lemma cost_raises:
  assumes "k < length ss"
    and "\<forall>i<k. \<exists>v. overlap_term dev nb p mws i (ss ! i) = Inr v"
    and "overlap_term dev nb p mws k (ss ! k) = Inl e"
  shows "cost dev nb p ss mws = Inl e"
proof -
  let ?f = "\<lambda>i. overlap_term dev nb p mws i (ss ! i)"
  have "[0..<length ss] = [0..<k] @ k # [Suc k..<length ss]"
    using assms(1) upt_add_eq_append [of 0 k "length ss - k"] by (simp add: upt_conv_Cons)
  then have "map ?f [0..<length ss] = map ?f [0..<k] @ Inl e # map ?f [Suc k..<length ss]"
    using assms(3) by simp
  moreover have "\<forall>r\<in>set (map ?f [0..<k]). \<exists>v. r = Inr v"
    using assms(2) by auto
  ultimately show ?thesis
    by (simp only: cost_sum_in_order sum_in_order_stops)
qed

lemma qnode_raises:
  assumes "encode_words nb embeddings indices = Inr prep"
    and "layer_params p [0..<num_layers nb] = Inr params"
    and "circuit_final nb params (wires nb) (num_layers nb) t = Inr ansatz"
    and "process_queue False (prep @ ansatz) = None"
    and "dev (prep @ ansatz) (last (wires nb)) = Inl e"
  shows "compute_overlap_words dev nb p embeddings indices t = Inl e"
  using assms by (simp add: compute_overlap_words_def and_then_def)

lemma qnode_queue_raises:
  assumes "encode_words nb embeddings indices = Inr prep"
    and "layer_params p [0..<num_layers nb] = Inr params"
    and "circuit_final nb params (wires nb) (num_layers nb) t = Inr ansatz"
    and "process_queue False (prep @ ansatz) = Some e"
  shows "compute_overlap_words dev nb p embeddings indices t = Inl e"
  using assms by (simp add: compute_overlap_words_def and_then_def)

lemma optimizer_raises:
  assumes "cost_batch dev nb b (cur_parameters st) = Inr v"
    and "opt (cost_batch dev nb b) (adam_state st) (cur_parameters st) = Inl e"
  shows "train_step dev nb opt b st = (st, Some e)"
  using assms by (simp add: train_step_def opt_step_def)

lemma train_step_error_state:
  "snd (train_step dev nb opt b st) = Some e \<Longrightarrow> train_step dev nb opt b st = (st, Some e)"
  by (auto simp: train_step_def split: sum.splits prod.splits)

lemma training_cell_stops:
  assumes "j < length (training_batches (length (sentences_truncated nb)))"
    and "run_batches (train_step dev nb opt)
           (take j (training_batches (length (sentences_truncated nb))))
           \<lparr>cur_parameters = initial_parameters nb drawn, adam_state = os, time_lines = 0\<rparr> =
             (st1, None)"
    and "snd (train_step dev nb opt (training_batches (length (sentences_truncated nb)) ! j) st1) =
           Some e"
  shows "training_cell dev nb opt os drawn = (st1, Some e)"
  unfolding training_cell_def training_loop_run_batches
  using assms(1,2) train_step_error_state [OF assms(3)] by (rule run_batches_stops)

lemma load_raises:
  "embeddings_npy fs = Inl e \<Longrightarrow> preprocessing_cell fl fs gen fit nb = (nb, Some e)"
  "embeddings_npy fs = Inr E \<Longrightarrow> sentences_npy fs = Inl e \<Longrightarrow>
     preprocessing_cell fl fs gen fit nb = (nb, Some e)"
  "embeddings_npy fs = Inr E \<Longrightarrow> sentences_npy fs = Inr S \<Longrightarrow> labels_npy fs = Inl e \<Longrightarrow>
     preprocessing_cell fl fs gen fit nb = (nb, Some e)"
  by (simp_all add: preprocessing_cell_def)

lemma pca_raises:
  assumes "embeddings_npy fs = Inr E" and "sentences_npy fs = Inr S" and "labels_npy fs = Inr L"
    and "randint gen 0 (int (num_words nb)) (length S) = Inr mw"
    and "fit (2 ^ qbits_per_word nb) (np_mask_select (positive_norms fl E) E) = Inl e"
  shows "preprocessing_cell fl fs gen fit nb = (nb\<lparr>missing_word := mw\<rparr>, Some e)"
  using assms by (simp add: preprocessing_cell_def embeddings_reduced_of_def and_then_def)

lemma vocab_raises:
  assumes "embeddings_npy fs = Inr E" and "sentences_npy fs = Inr S" and "labels_npy fs = Inr L"
    and "randint gen 0 (int (num_words nb)) (length S) = Inr mw"
    and "embeddings_reduced_of fl fit (2 ^ qbits_per_word nb) E = Inr reduced"
    and "embeddings_reduced_norm_of fl (2 ^ qbits_per_word nb) E reduced = Inr ern"
    and "all_indices_loop [0..<length S] mw (max_length nb)
           (replicate (length S) (np_arange (max_length nb))) = (ai, None)"
    and "vocab_p fs = Inl e"
  shows "preprocessing_cell fl fs gen fit nb =
           (nb\<lparr>missing_word := mw, embeddings_reduced_norm := ern,
               sentences_truncated := map (take (max_length nb)) S, all_indices := ai\<rparr>, Some e)"
  using assms by (simp add: preprocessing_cell_def)

lemma preprocessing_raises:
  "preprocessing_cell fl fs gen fit nb = (nb', Some e) \<Longrightarrow> preprocessing fl fs gen fit nb = Inl e"
  by (simp add: preprocessing_def)

lemma lookup_raises:
  assumes "position < int (num_words nb)"
    and "np_take (embeddings_reduced_norm nb) sentence = Inl e"
  shows "get_most_probable_word dev nb p sentence position look_in = Inl e"
  using assms by (simp add: get_most_probable_word_def Let_def and_then_def)

lemma candidate_raises:
  assumes "np_index (embeddings_reduced_norm nb) index = Inr row"
    and "compute_overlap_words dev nb p (embeddings_input @ [row]) indices position = Inl e"
  shows "probas_loop dev nb p embeddings_input indices position (index # rest) probas = Inl e"
  using assms by simp

text \<open>
  Claim C9. The notebook handles no exception, so an exception raised inside a library
  call reaches the top level unchanged, and what the cell had bound before stays bound.
  One raised by the device, or by the check of the queue, is the outcome of the qnode,
  and of \<open>cost\<close> when the sentences before have returned their values. One raised while
  the objective is evaluated, or by the optimizer itself, ends the training step and
  leaves the state of the cell as it was; when it happens at step \<open>j\<close>, the training cell
  ends with it, in the state the \<open>j\<close> steps before have left: the parameters bound by the
  earlier steps stay bound. One raised while a file is loaded, \<^verbatim>\<open>vocab.p\<close> included, or by
  the decomposition, ends the preprocessing cell with the globals bound by the statements
  before. One raised by the embedding lookup of \<open>get_most_probable_word\<close>, or by the qnode
  on a candidate, is the outcome of the query.
\<close>

theorem exceptions_propagate:
  "(encode_words nb embeddings indices = Inr prep \<longrightarrow>
    layer_params p [0..<num_layers nb] = Inr params \<longrightarrow>
    circuit_final nb params (wires nb) (num_layers nb) t = Inr ansatz \<longrightarrow>
    process_queue False (prep @ ansatz) = None \<longrightarrow>
    dev (prep @ ansatz) (last (wires nb)) = Inl e \<longrightarrow>
      compute_overlap_words dev nb p embeddings indices t = Inl e)
   \<and> (encode_words nb embeddings indices = Inr prep \<longrightarrow>
      layer_params p [0..<num_layers nb] = Inr params \<longrightarrow>
      circuit_final nb params (wires nb) (num_layers nb) t = Inr ansatz \<longrightarrow>
      process_queue False (prep @ ansatz) = Some e \<longrightarrow>
        compute_overlap_words dev nb p embeddings indices t = Inl e)
   \<and> (k < length ss \<longrightarrow>
      (\<forall>i<k. \<exists>v. overlap_term dev nb p mws i (ss ! i) = Inr v) \<longrightarrow>
      overlap_term dev nb p mws k (ss ! k) = Inl e \<longrightarrow>
        cost dev nb p ss mws = Inl e)
   \<and> (cost_batch dev nb b (cur_parameters st) = Inl e \<longrightarrow>
        train_step dev nb opt b st = (st, Some e))
   \<and> (cost_batch dev nb b (cur_parameters st) = Inr v \<longrightarrow>
      opt (cost_batch dev nb b) (adam_state st) (cur_parameters st) = Inl e \<longrightarrow>
        train_step dev nb opt b st = (st, Some e))
   \<and> (j < length (training_batches (length (sentences_truncated nb))) \<longrightarrow>
      run_batches (train_step dev nb opt)
        (take j (training_batches (length (sentences_truncated nb))))
        \<lparr>cur_parameters = initial_parameters nb drawn, adam_state = os, time_lines = 0\<rparr> =
          (st1, None) \<longrightarrow>
      snd (train_step dev nb opt (training_batches (length (sentences_truncated nb)) ! j) st1) =
          Some e \<longrightarrow>
        training_cell dev nb opt os drawn = (st1, Some e))
   \<and> (embeddings_npy fs = Inl e \<longrightarrow> preprocessing_cell fl fs gen fit nb = (nb, Some e))
   \<and> (embeddings_npy fs = Inr E \<longrightarrow> sentences_npy fs = Inl e \<longrightarrow>
        preprocessing_cell fl fs gen fit nb = (nb, Some e))
   \<and> (embeddings_npy fs = Inr E \<longrightarrow> sentences_npy fs = Inr S \<longrightarrow> labels_npy fs = Inl e \<longrightarrow>
        preprocessing_cell fl fs gen fit nb = (nb, Some e))
   \<and> (embeddings_npy fs = Inr E \<longrightarrow> sentences_npy fs = Inr S \<longrightarrow> labels_npy fs = Inr L \<longrightarrow>
      randint gen 0 (int (num_words nb)) (length S) = Inr mw \<longrightarrow>
      fit (2 ^ qbits_per_word nb) (np_mask_select (positive_norms fl E) E) = Inl e \<longrightarrow>
        preprocessing_cell fl fs gen fit nb = (nb\<lparr>missing_word := mw\<rparr>, Some e))
   \<and> (embeddings_npy fs = Inr E \<longrightarrow> sentences_npy fs = Inr S \<longrightarrow> labels_npy fs = Inr L \<longrightarrow>
      randint gen 0 (int (num_words nb)) (length S) = Inr mw \<longrightarrow>
      embeddings_reduced_of fl fit (2 ^ qbits_per_word nb) E = Inr reduced \<longrightarrow>
      embeddings_reduced_norm_of fl (2 ^ qbits_per_word nb) E reduced = Inr ern \<longrightarrow>
      all_indices_loop [0..<length S] mw (max_length nb)
        (replicate (length S) (np_arange (max_length nb))) = (ai, None) \<longrightarrow>
      vocab_p fs = Inl e \<longrightarrow>
        preprocessing_cell fl fs gen fit nb =
          (nb\<lparr>missing_word := mw, embeddings_reduced_norm := ern,
              sentences_truncated := map (take (max_length nb)) S, all_indices := ai\<rparr>, Some e))
   \<and> (preprocessing_cell fl fs gen fit nb = (nb', Some e) \<longrightarrow>
        preprocessing fl fs gen fit nb = Inl e)
   \<and> (position < int (num_words nb) \<longrightarrow>
      np_take (embeddings_reduced_norm nb) sentence = Inl e \<longrightarrow>
        get_most_probable_word dev nb p sentence position look_in = Inl e)
   \<and> (np_index (embeddings_reduced_norm nb) index = Inr row \<longrightarrow>
      compute_overlap_words dev nb p (embeddings_input @ [row]) indices position = Inl e \<longrightarrow>
        probas_loop dev nb p embeddings_input indices position (index # rest) probas = Inl e)"
proof (intro conjI impI)
  show "compute_overlap_words dev nb p embeddings indices t = Inl e"
    if "encode_words nb embeddings indices = Inr prep"
      and "layer_params p [0..<num_layers nb] = Inr params"
      and "circuit_final nb params (wires nb) (num_layers nb) t = Inr ansatz"
      and "process_queue False (prep @ ansatz) = None"
      and "dev (prep @ ansatz) (last (wires nb)) = Inl e"
    using that by (rule qnode_raises)
  show "compute_overlap_words dev nb p embeddings indices t = Inl e"
    if "encode_words nb embeddings indices = Inr prep"
      and "layer_params p [0..<num_layers nb] = Inr params"
      and "circuit_final nb params (wires nb) (num_layers nb) t = Inr ansatz"
      and "process_queue False (prep @ ansatz) = Some e"
    using that by (rule qnode_queue_raises)
  show "cost dev nb p ss mws = Inl e"
    if "k < length ss"
      and "\<forall>i<k. \<exists>v. overlap_term dev nb p mws i (ss ! i) = Inr v"
      and "overlap_term dev nb p mws k (ss ! k) = Inl e"
    using that by (rule cost_raises)
  show "train_step dev nb opt b st = (st, Some e)"
    if "cost_batch dev nb b (cur_parameters st) = Inl e"
    using that by (rule train_step_raises)
  show "train_step dev nb opt b st = (st, Some e)"
    if "cost_batch dev nb b (cur_parameters st) = Inr v"
      and "opt (cost_batch dev nb b) (adam_state st) (cur_parameters st) = Inl e"
    using that by (rule optimizer_raises)
  show "training_cell dev nb opt os drawn = (st1, Some e)"
    if "j < length (training_batches (length (sentences_truncated nb)))"
      and "run_batches (train_step dev nb opt)
        (take j (training_batches (length (sentences_truncated nb))))
        \<lparr>cur_parameters = initial_parameters nb drawn, adam_state = os, time_lines = 0\<rparr> =
          (st1, None)"
      and "snd (train_step dev nb opt (training_batches (length (sentences_truncated nb)) ! j) st1) =
          Some e"
    using that by (rule training_cell_stops)
  show "preprocessing_cell fl fs gen fit nb = (nb, Some e)" if "embeddings_npy fs = Inl e"
    using that by (rule load_raises(1))
  show "preprocessing_cell fl fs gen fit nb = (nb, Some e)"
    if "embeddings_npy fs = Inr E" and "sentences_npy fs = Inl e"
    using that by (rule load_raises(2))
  show "preprocessing_cell fl fs gen fit nb = (nb, Some e)"
    if "embeddings_npy fs = Inr E" and "sentences_npy fs = Inr S" and "labels_npy fs = Inl e"
    using that by (rule load_raises(3))
  show "preprocessing_cell fl fs gen fit nb = (nb\<lparr>missing_word := mw\<rparr>, Some e)"
    if "embeddings_npy fs = Inr E" and "sentences_npy fs = Inr S" and "labels_npy fs = Inr L"
      and "randint gen 0 (int (num_words nb)) (length S) = Inr mw"
      and "fit (2 ^ qbits_per_word nb) (np_mask_select (positive_norms fl E) E) = Inl e"
    using that by (rule pca_raises)
  show "preprocessing_cell fl fs gen fit nb =
          (nb\<lparr>missing_word := mw, embeddings_reduced_norm := ern,
              sentences_truncated := map (take (max_length nb)) S, all_indices := ai\<rparr>, Some e)"
    if "embeddings_npy fs = Inr E" and "sentences_npy fs = Inr S" and "labels_npy fs = Inr L"
      and "randint gen 0 (int (num_words nb)) (length S) = Inr mw"
      and "embeddings_reduced_of fl fit (2 ^ qbits_per_word nb) E = Inr reduced"
      and "embeddings_reduced_norm_of fl (2 ^ qbits_per_word nb) E reduced = Inr ern"
      and "all_indices_loop [0..<length S] mw (max_length nb)
        (replicate (length S) (np_arange (max_length nb))) = (ai, None)"
      and "vocab_p fs = Inl e"
    using that by (rule vocab_raises)
  show "preprocessing fl fs gen fit nb = Inl e"
    if "preprocessing_cell fl fs gen fit nb = (nb', Some e)"
    using that by (rule preprocessing_raises)
  show "get_most_probable_word dev nb p sentence position look_in = Inl e"
    if "position < int (num_words nb)"
      and "np_take (embeddings_reduced_norm nb) sentence = Inl e"
    using that by (rule lookup_raises)
  show "probas_loop dev nb p embeddings_input indices position (index # rest) probas = Inl e"
    if "np_index (embeddings_reduced_norm nb) index = Inr row"
      and "compute_overlap_words dev nb p (embeddings_input @ [row]) indices position = Inl e"
    using that by (rule candidate_raises)
qed

lemma demo_training_batches:
  "training_batches 10 = [[0, 1, 2, 3, 4, 5, 6, 7, 8, 9], [0, 1, 2, 3, 4, 5, 6, 7, 8, 9]]"
  by (simp add: training_batches_def epochs_def batch_size_def batch_of_def numeral_2_eq_2 upt_rec)

lemma demo_cost_batch:
  "cost_batch demo_dev demo_nb [0, 1, 2, 3, 4, 5, 6, 7, 8, 9] (initial_parameters demo_nb demo_drawn) = Inr 30"
proof -
  let ?p = "initial_parameters demo_nb demo_drawn"
  let ?ss = "replicate 10 [0, 2::int]"
  let ?mws = "[0, 1, 0, 1, 0, 1, 0, 1, 0, 1::int]"
  have take_s: "np_take (sentences_truncated demo_nb) [0, 1, 2, 3, 4, 5, 6, 7, 8, 9] = Inr ?ss"
    by (simp add: demo_nb_fields np_index_def upt_rec numeral_eq_Suc)
  have take_m: "np_take (missing_word demo_nb) [0, 1, 2, 3, 4, 5, 6, 7, 8, 9] = Inr ?mws"
    by (simp add: demo_nb_fields np_index_def upt_rec)
  have "\<forall>i<length ?ss. overlap_term demo_dev demo_nb ?p ?mws i (?ss ! i) = Inr ((\<lambda>i. 3) i)"
  proof (intro allI impI)
    fix i assume "i < length ?ss"
    then have i: "i < 10" by simp
    then have "\<exists>a b. np_index (all_indices demo_nb) (int i) = Inr [a, b]"
      by (auto simp: demo_nb_fields np_index_def nth_Cons' less_Suc_eq numeral_eq_Suc)
    moreover from i have "\<exists>m. np_index ?mws (int i) = Inr m"
      by (simp add: np_index_def)
    moreover from i have "np_take (embeddings_reduced_norm demo_nb) (?ss ! i) =
        Inr [[Float 1, Float 0], [Float 0, Float 1]]"
      by (simp add: demo_nb_fields np_index_def)
    ultimately show "overlap_term demo_dev demo_nb ?p ?mws i (?ss ! i) = Inr ((\<lambda>i. 3) i)"
      by (auto simp: overlap_term_def and_then_def demo_overlap)
  qed
  from cost_returns_sum [OF this]
  have "cost demo_dev demo_nb ?p ?ss ?mws = Inr 30"
    by (simp add: sum_list_triv)
  with take_s take_m show ?thesis
    by (simp add: cost_batch_def and_then_def)
qed

lemma demo_qnode_local:
  "compute_overlap_words (default_qubit demo_simulator) demo_nb (initial_parameters demo_nb demo_drawn)
     [[Float 1, Float 0], [Float 0, Float 1]] [2, 1] m_w =
   Inl (DeviceError ''QubitStateVector'' ''default.qubit.autograd'')"
  by (simp add: compute_overlap_words_def and_then_def demo_layer_params)
     (simp add: demo_nb_fields encode_words_spec_def default_qubit_def demo_simulator_def)

lemma demo_cost_batch_local:
  "cost_batch (default_qubit demo_simulator) demo_nb [0, 1, 2, 3, 4, 5, 6, 7, 8, 9]
     (initial_parameters demo_nb demo_drawn) =
   Inl (DeviceError ''QubitStateVector'' ''default.qubit.autograd'')"
proof -
  have "np_take (sentences_truncated demo_nb) [0, 1, 2, 3, 4, 5, 6, 7, 8, 9] = Inr (replicate 10 [0, 2])"
    by (simp add: demo_nb_fields np_index_def numeral_eq_Suc)
  moreover have "np_take (missing_word demo_nb) [0, 1, 2, 3, 4, 5, 6, 7, 8, 9] =
      Inr [0, 1, 0, 1, 0, 1, 0, 1, 0, 1]"
    by (simp add: demo_nb_fields np_index_def)
  moreover have "cost (default_qubit demo_simulator) demo_nb (initial_parameters demo_nb demo_drawn)
      ([0, 2] # replicate 9 [0, 2]) [0, 1, 0, 1, 0, 1, 0, 1, 0, 1] =
      Inl (DeviceError ''QubitStateVector'' ''default.qubit.autograd'')"
    by (rule cost_first_raises [OF _ _ _ demo_qnode_local])
       (simp_all add: demo_nb_fields np_index_def)
  ultimately show ?thesis
    by (simp add: cost_batch_def and_then_def numeral_eq_Suc)
qed

lemma demo_overlap_picky:
  "compute_overlap_words demo_dev_picky demo_nb (initial_parameters demo_nb demo_drawn) [a, b] [i, j] t =
     (if t = 1 then Inl (OtherError ''device'') else Inr 3)" if "0 \<le> t"
  using that
  by (simp add: compute_overlap_words_def and_then_def demo_layer_params)
     (auto simp: demo_nb_fields encode_words_spec_def demo_dev_picky_def demo_simulate_def)

theorem exceptions_propagate_witness:
  "process_queue False
      ([QubitStateVector [Float 1, Float 0] [2], QubitStateVector [Float 0, Float 1] [1]] @ [Gate 0])
      = None
   \<and> default_qubit demo_simulator
      ([QubitStateVector [Float 1, Float 0] [2], QubitStateVector [Float 0, Float 1] [1]] @ [Gate 0])
      (last (wires demo_nb)) = Inl (DeviceError ''QubitStateVector'' ''default.qubit.autograd'')
   \<and> compute_overlap_words (default_qubit demo_simulator) demo_nb
       (initial_parameters demo_nb demo_drawn) [[Float 1, Float 0], [Float 0, Float 1]] [2, 1] 0 =
       Inl (DeviceError ''QubitStateVector'' ''default.qubit.autograd'')
   \<and> process_queue False
      ([QubitStateVector [Float 1, Float 0] [2], QubitStateVector [Float 0, Float 1] [1]]
        @ [Gate 0, BasisState [0] [0]]) = Some ValueError
   \<and> compute_overlap_words demo_dev
       (demo_nb\<lparr>circuit_final := (\<lambda>params ws layers t. Inr [Gate 0, BasisState [0] [0]])\<rparr>)
       (initial_parameters demo_nb demo_drawn) [[Float 1, Float 0], [Float 0, Float 1]] [2, 1] 0 =
       Inl ValueError
   \<and> overlap_term demo_dev_picky demo_nb (initial_parameters demo_nb demo_drawn) [0, 1] 0 [0, 2]
       = Inr 3
   \<and> overlap_term demo_dev_picky demo_nb (initial_parameters demo_nb demo_drawn) [0, 1] 1 [2, 0]
       = Inl (OtherError ''device'')
   \<and> cost demo_dev_picky demo_nb (initial_parameters demo_nb demo_drawn) [[0, 2], [2, 0]] [0, 1]
       = Inl (OtherError ''device'')
   \<and> train_step (default_qubit demo_simulator) demo_nb demo_opt [0, 1, 2, 3, 4, 5, 6, 7, 8, 9]
        \<lparr>cur_parameters = initial_parameters demo_nb demo_drawn, adam_state = (), time_lines = 0\<rparr> =
       (\<lparr>cur_parameters = initial_parameters demo_nb demo_drawn, adam_state = (), time_lines = 0\<rparr>,
        Some (DeviceError ''QubitStateVector'' ''default.qubit.autograd''))
   \<and> train_step demo_dev demo_nb demo_opt_once [0, 1, 2, 3, 4, 5, 6, 7, 8, 9]
        \<lparr>cur_parameters = initial_parameters demo_nb demo_drawn, adam_state = 1, time_lines = 1\<rparr> =
       (\<lparr>cur_parameters = initial_parameters demo_nb demo_drawn, adam_state = 1, time_lines = 1\<rparr>,
        Some (OtherError ''adam''))
   \<and> run_batches (train_step demo_dev demo_nb demo_opt_once)
        (take 1 (training_batches (length (sentences_truncated demo_nb))))
        \<lparr>cur_parameters = initial_parameters demo_nb demo_drawn, adam_state = 0, time_lines = 0\<rparr> =
       (\<lparr>cur_parameters = initial_parameters demo_nb demo_drawn, adam_state = 1, time_lines = 1\<rparr>, None)
   \<and> training_cell demo_dev demo_nb demo_opt_once 0 demo_drawn =
       (\<lparr>cur_parameters = initial_parameters demo_nb demo_drawn, adam_state = 1, time_lines = 1\<rparr>,
        Some (OtherError ''adam''))
   \<and> preprocessing_cell demo_float demo_files_missing demo_gen demo_pca demo_config
       = (demo_config, Some (OtherError ''FileNotFoundError''))
   \<and> preprocessing_cell demo_float (demo_files\<lparr>sentences_npy := Inl (OtherError ''FileNotFoundError'')\<rparr>)
        demo_gen demo_pca demo_config = (demo_config, Some (OtherError ''FileNotFoundError''))
   \<and> preprocessing_cell demo_float (demo_files\<lparr>labels_npy := Inl (OtherError ''FileNotFoundError'')\<rparr>)
        demo_gen demo_pca demo_config = (demo_config, Some (OtherError ''FileNotFoundError''))
   \<and> preprocessing_cell demo_float demo_files demo_gen demo_pca_raises demo_config
       = (demo_config\<lparr>missing_word := [0, 1, 0, 1, 0, 1, 0, 1, 0, 1]\<rparr>, Some ValueError)
   \<and> preprocessing_cell demo_float demo_files_no_vocab demo_gen demo_pca demo_config
       = (demo_config
          \<lparr>missing_word := [0, 1, 0, 1, 0, 1, 0, 1, 0, 1],
            embeddings_reduced_norm := [[Float 1, Float 0], [Float 0, Float 0], [Float 0, Float 1]],
            sentences_truncated := map (take (max_length demo_config)) (replicate 10 [0, 2, 2]),
            all_indices := [[2, 1], [0, 2], [2, 1], [0, 2], [2, 1], [0, 2], [2, 1], [0, 2], [2, 1], [0, 2]]\<rparr>,
          Some (OtherError ''FileNotFoundError''))
   \<and> preprocessing demo_float demo_files_no_vocab demo_gen demo_pca demo_config
       = Inl (OtherError ''FileNotFoundError'')
   \<and> np_take (embeddings_reduced_norm demo_nb) [0, 5] = Inl IndexError
   \<and> get_most_probable_word demo_dev demo_nb (initial_parameters demo_nb demo_drawn) [0, 5] 1 None
       = Inl IndexError
   \<and> probas_loop demo_dev_picky demo_nb (initial_parameters demo_nb demo_drawn) [[Float 1, Float 0]]
        [0, 2] 1 [0, 2] [] = Inl (OtherError ''device'')"
proof -
  let ?p = "initial_parameters demo_nb demo_drawn"
  let ?local = "default_qubit demo_simulator"
  let ?E = "DeviceError ''QubitStateVector'' ''default.qubit.autograd''"
  let ?F = "OtherError ''FileNotFoundError''"
  let ?batch = "[0, 1, 2, 3, 4, 5, 6, 7, 8, 9::int]"
  let ?st0 = "\<lparr>cur_parameters = ?p, adam_state = 0::nat, time_lines = 0\<rparr>"
  let ?st1 = "\<lparr>cur_parameters = ?p, adam_state = 1::nat, time_lines = 1\<rparr>"
  let ?u0 = "\<lparr>cur_parameters = ?p, adam_state = (), time_lines = 0\<rparr>"
  let ?nbq = "demo_nb\<lparr>circuit_final := (\<lambda>params ws layers t. Inr [Gate 0, BasisState [0] [0]])\<rparr>"
  let ?emb = "[[Float 1, Float 0, Float 0], [Float 0, Float 0, Float 0], [Float 0, Float 2, Float 0]]"
  let ?mw = "[0, 1, 0, 1, 0, 1, 0, 1, 0, 1::int]"
  note c1 = exceptions_propagate [THEN conjunct1, rule_format]
  note c2 = exceptions_propagate [THEN conjunct2, THEN conjunct1, rule_format]
  note c3 = exceptions_propagate [THEN conjunct2, THEN conjunct2, THEN conjunct1, rule_format]
  note c4 = exceptions_propagate [THEN conjunct2, THEN conjunct2, THEN conjunct2, THEN conjunct1, rule_format]
  note c5 = exceptions_propagate [THEN conjunct2, THEN conjunct2, THEN conjunct2, THEN conjunct2, THEN conjunct1, rule_format]
  note c6 = exceptions_propagate [THEN conjunct2, THEN conjunct2, THEN conjunct2, THEN conjunct2, THEN conjunct2, THEN conjunct1, rule_format]
  note c7 = exceptions_propagate [THEN conjunct2, THEN conjunct2, THEN conjunct2, THEN conjunct2, THEN conjunct2, THEN conjunct2, THEN conjunct1, rule_format]
  note c8 = exceptions_propagate [THEN conjunct2, THEN conjunct2, THEN conjunct2, THEN conjunct2, THEN conjunct2, THEN conjunct2, THEN conjunct2, THEN conjunct1, rule_format]
  note c9 = exceptions_propagate [THEN conjunct2, THEN conjunct2, THEN conjunct2, THEN conjunct2, THEN conjunct2, THEN conjunct2, THEN conjunct2, THEN conjunct2, THEN conjunct1, rule_format]
  note c10 = exceptions_propagate [THEN conjunct2, THEN conjunct2, THEN conjunct2, THEN conjunct2, THEN conjunct2, THEN conjunct2, THEN conjunct2, THEN conjunct2, THEN conjunct2, THEN conjunct1, rule_format]
  note c11 = exceptions_propagate [THEN conjunct2, THEN conjunct2, THEN conjunct2, THEN conjunct2, THEN conjunct2, THEN conjunct2, THEN conjunct2, THEN conjunct2, THEN conjunct2, THEN conjunct2, THEN conjunct1, rule_format]
  note c12 = exceptions_propagate [THEN conjunct2, THEN conjunct2, THEN conjunct2, THEN conjunct2, THEN conjunct2, THEN conjunct2, THEN conjunct2, THEN conjunct2, THEN conjunct2, THEN conjunct2, THEN conjunct2, THEN conjunct1, rule_format]
  note c13 = exceptions_propagate [THEN conjunct2, THEN conjunct2, THEN conjunct2, THEN conjunct2, THEN conjunct2, THEN conjunct2, THEN conjunct2, THEN conjunct2, THEN conjunct2, THEN conjunct2, THEN conjunct2, THEN conjunct2, THEN conjunct1, rule_format]
  note c14 = exceptions_propagate [THEN conjunct2, THEN conjunct2, THEN conjunct2, THEN conjunct2, THEN conjunct2, THEN conjunct2, THEN conjunct2, THEN conjunct2, THEN conjunct2, THEN conjunct2, THEN conjunct2, THEN conjunct2, THEN conjunct2, rule_format]
  have enc: "encode_words demo_nb [[Float 1, Float 0], [Float 0, Float 1]] [2, 1] =
               Inr [QubitStateVector [Float 1, Float 0] [2], QubitStateVector [Float 0, Float 1] [1]]"
    by (simp add: demo_nb_fields encode_words_spec_def register_def)
  have fin: "circuit_final demo_nb [([1 / 2], [[1 / 2]])] (wires demo_nb) (num_layers demo_nb) 0 =
               Inr [Gate 0]"
    by (simp add: demo_nb_fields)
  have queue: "process_queue False
      ([QubitStateVector [Float 1, Float 0] [2], QubitStateVector [Float 0, Float 1] [1]] @ [Gate 0])
      = None"
    by simp
  have dev: "?local ([QubitStateVector [Float 1, Float 0] [2], QubitStateVector [Float 0, Float 1] [1]] @ [Gate 0])
      (last (wires demo_nb)) = Inl ?E"
    by (simp add: default_qubit_def demo_simulator_def)
  have qnode: "compute_overlap_words ?local demo_nb ?p [[Float 1, Float 0], [Float 0, Float 1]] [2, 1] 0 = Inl ?E"
    by (rule c1 [where dev = ?local, OF enc demo_layer_params fin queue]) (rule dev)
  have encq: "encode_words ?nbq [[Float 1, Float 0], [Float 0, Float 1]] [2, 1] =
               Inr [QubitStateVector [Float 1, Float 0] [2], QubitStateVector [Float 0, Float 1] [1]]"
    by (simp add: demo_nb_fields encode_words_spec_def register_def)
  have layersq: "layer_params ?p [0..<num_layers ?nbq] = Inr [([1 / 2], [[1 / 2]])]"
    using demo_layer_params by simp
  have finq: "circuit_final ?nbq [([1 / 2], [[1 / 2]])] (wires ?nbq) (num_layers ?nbq) 0 =
               Inr [Gate 0, BasisState [0] [0]]"
    by simp
  have refused: "process_queue False
      ([QubitStateVector [Float 1, Float 0] [2], QubitStateVector [Float 0, Float 1] [1]]
        @ [Gate 0, BasisState [0] [0]]) = Some ValueError"
    by simp
  have qnodeq: "compute_overlap_words demo_dev ?nbq ?p [[Float 1, Float 0], [Float 0, Float 1]] [2, 1] 0 =
      Inl ValueError"
    by (rule c2 [where dev = demo_dev, OF encq layersq finq refused])
  have t0: "overlap_term demo_dev_picky demo_nb ?p [0, 1] 0 [0, 2] = Inr 3"
    and t1: "overlap_term demo_dev_picky demo_nb ?p [0, 1] 1 [2, 0] = Inl (OtherError ''device'')"
    by (simp_all add: overlap_term_def and_then_def demo_nb_fields np_index_def demo_overlap_picky)
  have cost: "cost demo_dev_picky demo_nb ?p [[0, 2], [2, 0]] [0, 1] = Inl (OtherError ''device'')"
  proof (rule c3 [where k = 1])
    show "1 < length [[0, 2], [2, 0::int]]" by simp
    show "\<exists>v. overlap_term demo_dev_picky demo_nb ?p [0, 1] i ([[0, 2], [2, 0]] ! i) = Inr v"
      if "i < 1" for i using that t0 by simp
    show "overlap_term demo_dev_picky demo_nb ?p [0, 1] 1 ([[0, 2], [2, 0]] ! 1) = Inl (OtherError ''device'')"
      using t1 by simp
  qed
  have step_local: "train_step ?local demo_nb demo_opt ?batch ?u0 = (?u0, Some ?E)"
    by (rule c4) (simp add: demo_cost_batch_local)
  have step_adam: "train_step demo_dev demo_nb demo_opt_once ?batch ?st1 = (?st1, Some (OtherError ''adam''))"
    by (rule c5 [where v = 30]) (simp_all add: demo_cost_batch demo_opt_once_def)
  have n: "length (sentences_truncated demo_nb) = 10"
    by (simp add: demo_nb_fields)
  have prefix: "run_batches (train_step demo_dev demo_nb demo_opt_once)
      (take 1 (training_batches (length (sentences_truncated demo_nb)))) ?st0 = (?st1, None)"
    by (simp add: n demo_training_batches train_step_def opt_step_def demo_cost_batch demo_opt_once_def)
  have cell: "training_cell demo_dev demo_nb demo_opt_once 0 demo_drawn = (?st1, Some (OtherError ''adam''))"
  proof (rule c6 [where j = 1])
    show "1 < length (training_batches (length (sentences_truncated demo_nb)))"
      by (simp add: n demo_training_batches)
    show "run_batches (train_step demo_dev demo_nb demo_opt_once)
      (take 1 (training_batches (length (sentences_truncated demo_nb)))) ?st0 = (?st1, None)"
      by (rule prefix)
    show "snd (train_step demo_dev demo_nb demo_opt_once
        (training_batches (length (sentences_truncated demo_nb)) ! 1) ?st1) = Some (OtherError ''adam'')"
      using step_adam by (simp add: n demo_training_batches)
  qed
  have load: "embeddings_npy demo_files = Inr ?emb" "sentences_npy demo_files = Inr (replicate 10 [0, 2, 2])"
    "labels_npy demo_files = Inr (replicate 10 0)"
    by (simp_all add: demo_files_def)
  have f1: "preprocessing_cell demo_float demo_files_missing demo_gen demo_pca demo_config = (demo_config, Some ?F)"
    by (rule c7) (simp add: demo_files_missing_def)
  have f2: "preprocessing_cell demo_float (demo_files\<lparr>sentences_npy := Inl ?F\<rparr>) demo_gen demo_pca demo_config =
      (demo_config, Some ?F)"
    by (rule c8 [where E = ?emb]) (simp_all add: load)
  have f3: "preprocessing_cell demo_float (demo_files\<lparr>labels_npy := Inl ?F\<rparr>) demo_gen demo_pca demo_config =
      (demo_config, Some ?F)"
    by (rule c9 [where E = ?emb and S = "replicate 10 [0, 2, 2]"]) (simp_all add: load)
  have draw: "randint demo_gen 0 (int (num_words demo_config)) (length (replicate 10 [0, 2, 2::int])) = Inr ?mw"
    by (simp add: demo_config_fields demo_randint)
  have f4: "preprocessing_cell demo_float demo_files demo_gen demo_pca_raises demo_config =
      (demo_config\<lparr>missing_word := ?mw\<rparr>, Some ValueError)"
    by (rule c10 [OF load draw]) (simp add: demo_pca_raises_def)
  have load': "embeddings_npy demo_files_no_vocab = Inr ?emb"
    "sentences_npy demo_files_no_vocab = Inr (replicate 10 [0, 2, 2])"
    "labels_npy demo_files_no_vocab = Inr (replicate 10 0)"
    by (simp_all add: demo_files_no_vocab_def demo_files_def)
  have red: "embeddings_reduced_of demo_float demo_pca (2 ^ qbits_per_word demo_config) ?emb =
      Inr [[Float 1, Float 0], [Float 0, Float 0], [Float 0, Float 2]]"
    by (simp add: demo_config_fields demo_reduced)
  have ern: "embeddings_reduced_norm_of demo_float (2 ^ qbits_per_word demo_config) ?emb
      [[Float 1, Float 0], [Float 0, Float 0], [Float 0, Float 2]] =
      Inr [[Float 1, Float 0], [Float 0, Float 0], [Float 0, Float 1]]"
    by (simp add: demo_config_fields demo_reduced_norm)
  have ai: "all_indices_loop [0..<length (replicate 10 [0, 2, 2::int])] ?mw (max_length demo_config)
      (replicate (length (replicate 10 [0, 2, 2::int])) (np_arange (max_length demo_config))) =
      ([[2, 1], [0, 2], [2, 1], [0, 2], [2, 1], [0, 2], [2, 1], [0, 2], [2, 1], [0, 2]], None)"
    by (simp add: demo_config_fields demo_all_indices del: all_indices_loop.simps)
  have f5: "preprocessing_cell demo_float demo_files_no_vocab demo_gen demo_pca demo_config
       = (demo_config
          \<lparr>missing_word := ?mw,
            embeddings_reduced_norm := [[Float 1, Float 0], [Float 0, Float 0], [Float 0, Float 1]],
            sentences_truncated := map (take (max_length demo_config)) (replicate 10 [0, 2, 2]),
            all_indices := [[2, 1], [0, 2], [2, 1], [0, 2], [2, 1], [0, 2], [2, 1], [0, 2], [2, 1], [0, 2]]\<rparr>,
          Some ?F)"
    by (rule c11 [OF load' draw red ern ai]) (simp add: demo_files_no_vocab_def)
  have f6: "preprocessing demo_float demo_files_no_vocab demo_gen demo_pca demo_config = Inl ?F"
    by (rule c12 [OF f5])
  have lookup: "np_take (embeddings_reduced_norm demo_nb) [0, 5] = Inl IndexError"
    by (simp add: demo_nb_fields np_index_def)
  have query: "get_most_probable_word demo_dev demo_nb ?p [0, 5] 1 None = Inl IndexError"
    by (rule c13 [OF _ lookup]) (simp add: demo_nb_fields)
  have row: "np_index (embeddings_reduced_norm demo_nb) 0 = Inr [Float 1, Float 0]"
    by (simp add: demo_nb_fields np_index_def)
  have candidate: "probas_loop demo_dev_picky demo_nb ?p [[Float 1, Float 0]] [0, 2] 1 [0, 2] [] =
      Inl (OtherError ''device'')"
    by (rule c14 [OF row]) (simp add: demo_overlap_picky)
  from queue dev qnode refused qnodeq t0 t1 cost step_local step_adam prefix cell f1 f2 f3 f4 f5 f6
    lookup query candidate
  show ?thesis
    by (intro conjI)
qed

end
